(* ===== verification/Prelude.thy ===== *)
theory Prelude
  imports Main "HOL-Library.Word" "HOL-Library.Log_Nat"
begin

text \<open>
  Shared vocabulary of the development: the collections of rewrite rules that
  evaluate the model on concrete inputs, array reads that return
  \<open>undefined\<close> out of range as JavaScript does, and the exception-passing
  state combinators in which the statements of the bundle are written (a
  statement either completes with a value or throws, and in both cases the
  heap it leaves behind is kept).
\<close>

named_theorems float_eval \<open>definitions unfolded to evaluate binary64 operations on literals\<close>
named_theorems js_eval \<open>definitions unfolded to run the bundle on a concrete state\<close>

subsection \<open>Array reads\<close>

text \<open>
  \<open>xs[i]\<close> of a JavaScript array: the element when \<open>i\<close> is an index of the
  array, \<open>undefined\<close> (here \<open>None\<close>) otherwise.
\<close>

definition list_get :: "'a list \<Rightarrow> nat \<Rightarrow> 'a option" where
  "list_get xs i = (if i < length xs then Some (xs ! i) else None)"

lemma list_get_Nil [simp]: "list_get [] i = None"
  by (simp add: list_get_def)

lemma list_get_Cons_0 [simp]: "list_get (x # xs) 0 = Some x"
  by (simp add: list_get_def)

lemma list_get_Cons_Suc [simp]: "list_get (x # xs) (Suc i) = list_get xs i"
  by (simp add: list_get_def)

lemma list_get_Cons_numeral [simp]:
  "list_get (x # xs) (numeral n) = list_get xs (pred_numeral n)"
  by (simp add: numeral_eq_Suc)

lemma list_get_None_iff: "list_get xs i = None \<longleftrightarrow> length xs \<le> i"
  by (simp add: list_get_def)

lemma list_get_Some_iff: "list_get xs i = Some x \<longleftrightarrow> i < length xs \<and> xs ! i = x"
  by (auto simp add: list_get_def)

lemma list_get_update_eq: "i < length xs \<Longrightarrow> list_get (xs[i := v]) i = Some v"
  by (simp add: list_get_def)

lemma list_get_update_neq: "i \<noteq> j \<Longrightarrow> list_get (xs[j := v]) i = list_get xs i"
  by (simp add: list_get_def)

lemma list_get_append_old: "i < length xs \<Longrightarrow> list_get (xs @ ys) i = list_get xs i"
  by (simp add: list_get_def nth_append)

lemma list_get_append_new: "list_get (xs @ [y]) (length xs) = Some y"
  by (simp add: list_get_def)

lemmas list_get_simps = list_get_update_eq list_get_update_neq list_get_append_old
  list_get_append_new

subsection \<open>Statements that may throw\<close>

text \<open>
  A statement runs on a state \<open>'s\<close> and either completes with a value
  (\<open>Inr\<close>) or throws an exception (\<open>Inl\<close>). An exception does not undo the
  effects already made, so the state is returned in both cases. \<open>bind_exc\<close>
  is JavaScript's sequencing: the second statement runs only when the first
  completes normally, and an exception propagates with the state it left.
\<close>

type_synonym ('e, 's, 'a) stmt = "'s \<Rightarrow> ('e + 'a) \<times> 's"

definition ret :: "'a \<Rightarrow> ('e, 's, 'a) stmt" where
  "ret x s = (Inr x, s)"

definition throw :: "'e \<Rightarrow> ('e, 's, 'a) stmt" where
  "throw e s = (Inl e, s)"

definition bind_exc :: "('e, 's, 'a) stmt \<Rightarrow> ('a \<Rightarrow> ('e, 's, 'b) stmt) \<Rightarrow> ('e, 's, 'b) stmt" where
  "bind_exc m f s = (case m s of (Inl e, s') \<Rightarrow> (Inl e, s') | (Inr x, s') \<Rightarrow> f x s')"

lemma bind_exc_Inr [simp]: "m s = (Inr x, s') \<Longrightarrow> bind_exc m f s = f x s'"
  by (simp add: bind_exc_def)

lemma bind_exc_Inl [simp]: "m s = (Inl e, s') \<Longrightarrow> bind_exc m f s = (Inl e, s')"
  by (simp add: bind_exc_def)

lemma bind_exc_ret [simp]: "bind_exc (ret x) f = f x"
  by (simp add: bind_exc_def ret_def fun_eq_iff)

lemma bind_exc_throw [simp]: "bind_exc (throw e) f = throw e"
  by (simp add: bind_exc_def throw_def fun_eq_iff)

lemma bind_exc_assoc:
  "bind_exc (bind_exc m f) g = bind_exc m (\<lambda>x. bind_exc (f x) g)"
  by (simp add: bind_exc_def fun_eq_iff split: prod.splits sum.splits)

lemma bind_exc_cases:
  assumes "bind_exc m f s = (r, s')"
  obtains (Throw) e where "m s = (Inl e, s')" and "r = Inl e"
    | (Next) x s1 where "m s = (Inr x, s1)" and "f x s1 = (r, s')"
  using assms by (cases "m s") (auto simp: bind_exc_def split: sum.splits)

text \<open>
  A property of states that every step of a statement keeps, whether it
  completes or throws; \<open>bind_exc\<close> keeps it too.
\<close>

definition keeps :: "('s \<Rightarrow> 's \<Rightarrow> bool) \<Rightarrow> ('e, 's, 'a) stmt \<Rightarrow> bool" where
  "keeps R m \<longleftrightarrow> (\<forall>s. R s (snd (m s)))"

lemma keeps_ret [intro]: "reflp R \<Longrightarrow> keeps R (ret x)"
  by (simp add: keeps_def ret_def reflpD)

lemma keeps_throw [intro]: "reflp R \<Longrightarrow> keeps R (throw e)"
  by (simp add: keeps_def throw_def reflpD)

lemma keeps_bind [intro]:
  assumes "transp R" "reflp R" "keeps R m" "\<And>x. keeps R (f x)"
  shows "keeps R (bind_exc m f)"
  unfolding keeps_def
proof
  fix s
  show "R s (snd (bind_exc m f s))"
  proof (cases "m s")
    case (Pair r s1)
    have "R s s1" using assms(3) Pair by (metis keeps_def snd_conv)
    show ?thesis
    proof (cases r)
      case (Inl e)
      with Pair \<open>R s s1\<close> show ?thesis by simp
    next
      case (Inr x)
      have "R s1 (snd (f x s1))" using assms(4) by (simp add: keeps_def)
      with Pair Inr \<open>R s s1\<close> assms(1) show ?thesis by (simp add: transpD[of R])
    qed
  qed
qed

lemma keeps_dep: "(\<And>t. keeps R (f t)) \<Longrightarrow> keeps R (\<lambda>s. f s s)"
  by (simp add: keeps_def)

lemma keeps_if: "keeps R a \<Longrightarrow> keeps R b \<Longrightarrow> keeps R (\<lambda>s. if P s then a s else b s)"
  by (simp add: keeps_def)

lemma keeps_if_const: "keeps R a \<Longrightarrow> keeps R b \<Longrightarrow> keeps R (if P then a else b)"
  by simp

end
