(* ===== verification/Float64.thy ===== *)
theory Float64
  imports Prelude
begin

text \<open>
  JavaScript numbers are IEEE-754 binary64 values. The bundle's arithmetic
  (\<open>2 * PI * r\<close> in \<open>circumference\<close>, \<open>PI * r * r\<close> in \<open>area\<close>, lines
  77--82 of src/bundle.js) and its numeric literal \<open>3.141592653589793\<close>
  (line 76) are evaluated in that format. A value is modelled by its 64-bit
  pattern, so that "bit-identical" is equality of words. The rounding of an
  exact rational to binary64 (round to nearest, ties to even, overflow to
  infinity, gradual underflow) is an executable definition over \<open>nat\<close>; the
  multiplication and the literal conversion are built on it.
\<close>

type_synonym float64 = "64 word"

subsection \<open>Fields of the encoding\<close>

definition f_sign :: "float64 \<Rightarrow> bool" where
  "f_sign x = bit x 63"

definition f_exp :: "float64 \<Rightarrow> nat" where
  "f_exp x = unat (take_bit 11 (drop_bit 52 x))"

definition f_frac :: "float64 \<Rightarrow> nat" where
  "f_frac x = unat (take_bit 52 x)"

definition f_make :: "bool \<Rightarrow> nat \<Rightarrow> nat \<Rightarrow> float64" where
  "f_make s e f = word_of_nat ((if s then 2 ^ 63 else 0) + e * 2 ^ 52 + f)"

definition is_nan :: "float64 \<Rightarrow> bool" where
  "is_nan x \<longleftrightarrow> f_exp x = 2047 \<and> f_frac x \<noteq> 0"

definition is_inf :: "float64 \<Rightarrow> bool" where
  "is_inf x \<longleftrightarrow> f_exp x = 2047 \<and> f_frac x = 0"

definition is_zero :: "float64 \<Rightarrow> bool" where
  "is_zero x \<longleftrightarrow> f_exp x = 0 \<and> f_frac x = 0"

definition is_finite :: "float64 \<Rightarrow> bool" where
  "is_finite x \<longleftrightarrow> f_exp x < 2047"

text \<open>The NaN that JavaScript engines produce (\<open>0x7FF8000000000000\<close>).\<close>

definition js_nan :: float64 where
  "js_nan = f_make False 2047 (2 ^ 51)"

text \<open>
  A finite value is \<open>(-1)^sign * signif * 2^qexp\<close>, with the hidden bit
  added for normal numbers and the fixed exponent -1074 for subnormal ones.
\<close>

definition f_signif :: "float64 \<Rightarrow> nat" where
  "f_signif x = (if f_exp x = 0 then f_frac x else 2 ^ 52 + f_frac x)"

definition f_qexp :: "float64 \<Rightarrow> int" where
  "f_qexp x = (if f_exp x = 0 then -1074 else int (f_exp x) - 1075)"

subsection \<open>Rounding an exact rational\<close>

text \<open>
  \<open>pow2_le n d p\<close> decides \<open>2^p \<le> n / d\<close> in integer arithmetic;
  \<open>ilog2q n d\<close> is \<open>\<lfloor>log2 (n / d)\<rfloor>\<close>, found from the bit lengths of \<open>n\<close>
  and \<open>d\<close> (which fix it up to one) and one comparison.
\<close>

definition pow2_le :: "nat \<Rightarrow> nat \<Rightarrow> int \<Rightarrow> bool" where
  "pow2_le n d p \<longleftrightarrow> (if 0 \<le> p then d * 2 ^ nat p \<le> n else d \<le> n * 2 ^ nat (- p))"

definition ilog2q :: "nat \<Rightarrow> nat \<Rightarrow> int" where
  "ilog2q n d = (let p = bitlen (int n) - bitlen (int d) in if pow2_le n d p then p else p - 1)"

text \<open>
  \<open>encode_mq s m q\<close> encodes \<open>(-1)^s * m * 2^q\<close> for a significand
  \<open>m < 2^53\<close> already rounded to the quantum \<open>2^q\<close>: subnormal when
  \<open>m < 2^52\<close>, infinite when the biased exponent reaches 2047.
\<close>

definition encode_mq :: "bool \<Rightarrow> nat \<Rightarrow> int \<Rightarrow> float64" where
  "encode_mq s m q =
     (if m < 2 ^ 52 then f_make s 0 m
      else if 2047 \<le> q + 1075 then f_make s 2047 0
      else f_make s (nat (q + 1075)) (m - 2 ^ 52))"

text \<open>
  \<open>rne_div a b\<close> is the quotient \<open>a / b\<close> rounded to the nearest integer,
  ties to the even one.
\<close>

definition rne_div :: "nat \<Rightarrow> nat \<Rightarrow> nat" where
  "rne_div a b =
     (let m0 = a div b; r = a mod b in
      if b < 2 * r \<or> (2 * r = b \<and> odd m0) then Suc m0 else m0)"

text \<open>
  The quantum of the result: \<open>2^q\<close> with
  \<open>q = max (\<lfloor>log2 (n/d)\<rfloor> - 52) (-1074)\<close>, so that a normal result has a
  53-bit significand and a subnormal one the fixed exponent -1074.
\<close>

definition quantum :: "nat \<Rightarrow> nat \<Rightarrow> int" where
  "quantum n d = max (ilog2q n d - 52) (-1074)"

text \<open>
  \<open>round_div s n d\<close> rounds \<open>(-1)^s * n / d\<close> to nearest, ties to even: the
  quotient by the quantum is rounded, and a carry to \<open>2^53\<close> moves to the
  next binade.
\<close>

definition round_div :: "bool \<Rightarrow> nat \<Rightarrow> nat \<Rightarrow> float64" where
  "round_div s n d =
     (if n = 0 then f_make s 0 0 else
      let q = quantum n d;
          m = (if q \<le> 0 then rne_div (n * 2 ^ nat (- q)) d else rne_div n (d * 2 ^ nat q))
      in if m = 2 ^ 53 then encode_mq s (2 ^ 52) (q + 1) else encode_mq s m q)"

text \<open>\<open>round_val s m k\<close> rounds \<open>(-1)^s * m * 2^k\<close>.\<close>

definition round_val :: "bool \<Rightarrow> nat \<Rightarrow> int \<Rightarrow> float64" where
  "round_val s m k =
     (if 0 \<le> k then round_div s (m * 2 ^ nat k) 1 else round_div s m (2 ^ nat (- k)))"

subsection \<open>Operations\<close>

text \<open>
  The \<open>*\<close> operator on two numbers (ECMAScript 2015, 12.6.3.1): NaN when
  an operand is NaN or zero meets infinity, an infinity with the product of
  the signs when an operand is infinite, otherwise the exact product rounded,
  a zero product keeping the sign of the product.
\<close>

definition fmul :: "float64 \<Rightarrow> float64 \<Rightarrow> float64" where
  "fmul a b =
     (if is_nan a \<or> is_nan b \<or> (is_zero a \<and> is_inf b) \<or> (is_inf a \<and> is_zero b) then js_nan
      else if is_inf a \<or> is_inf b then f_make (f_sign a \<noteq> f_sign b) 2047 0
      else round_val (f_sign a \<noteq> f_sign b) (f_signif a * f_signif b) (f_qexp a + f_qexp b))"

text \<open>
  The \<open>+\<close> operator on two numbers (ECMAScript 2015, 12.7.5): NaN when an
  operand is NaN or infinities of opposite sign meet, an infinity when an
  operand is infinite, otherwise the exact sum rounded; an exact zero sum is
  \<open>+0\<close> unless both operands are \<open>-0\<close>. Every \<open>+\<close> of the bundle (line
  59) has a string operand, so the bundle never reaches this case; it
  completes the semantics of \<open>js_add\<close>.
\<close>

definition fadd :: "float64 \<Rightarrow> float64 \<Rightarrow> float64" where
  "fadd a b =
     (if is_nan a \<or> is_nan b \<or> (is_inf a \<and> is_inf b \<and> f_sign a \<noteq> f_sign b) then js_nan
      else if is_inf a then a
      else if is_inf b then b
      else
        let q = min (f_qexp a) (f_qexp b);
            va = (if f_sign a then -1 else 1) * int (f_signif a) * 2 ^ nat (f_qexp a - q);
            vb = (if f_sign b then -1 else 1) * int (f_signif b) * 2 ^ nat (f_qexp b - q);
            v = va + vb
        in if v = 0 then f_make (f_sign a \<and> f_sign b) 0 0
           else round_val (v < 0) (nat \<bar>v\<bar>) q)"

text \<open>
  A decimal value \<open>(-1)^s * digits * 10^e\<close> rounded to nearest: the value of
  a numeric literal (ECMAScript 2015, 11.8.3.1) and of a decimal string
  (7.1.3.1).
\<close>

definition dec_round :: "bool \<Rightarrow> nat \<Rightarrow> int \<Rightarrow> float64" where
  "dec_round s m e =
     (if 0 \<le> e then round_div s (m * 10 ^ nat e) 1 else round_div s m (10 ^ nat (- e)))"

definition dec_lit :: "nat \<Rightarrow> int \<Rightarrow> float64" where
  "dec_lit m e = dec_round False m e"

text \<open>The exact rational value of a finite binary64 value.\<close>

definition f_val :: "float64 \<Rightarrow> rat" where
  "f_val x = (if f_sign x then -1 else 1) * of_nat (f_signif x) * 2 powi f_qexp x"

text \<open>
  The pairs \<open>(m, q)\<close> that are already a binary64 value \<open>m * 2^q\<close>:
  a 53-bit significand with an exponent in range, or a subnormal one.
\<close>

definition canonical :: "nat \<Rightarrow> int \<Rightarrow> bool" where
  "canonical m q \<longleftrightarrow> (2 ^ 52 \<le> m \<and> m < 2 ^ 53 \<and> -1074 \<le> q) \<or> (m < 2 ^ 52 \<and> q = -1074)"

lemmas [float_eval] = fmul_def round_val_def round_div_def rne_div_def quantum_def ilog2q_def pow2_le_def encode_mq_def
  f_make_def f_signif_def f_qexp_def f_exp_def f_frac_def f_sign_def is_nan_def is_inf_def
  is_zero_def is_finite_def dec_lit_def dec_round_def fadd_def js_nan_def compute_bitlen Let_def

subsection \<open>The encoding\<close>

lemma unat_float_lt: "unat (x::float64) < 2 ^ 64"
  using unsigned_less[of x] by simp

lemma f_frac_unat: "f_frac x = unat x mod 2 ^ 52"
  unfolding f_frac_def unsigned_take_bit_eq by (simp add: take_bit_eq_mod)

lemma f_exp_unat: "f_exp x = unat x div 2 ^ 52 mod 2 ^ 11"
  unfolding f_exp_def unsigned_take_bit_eq unat_drop_bit_eq by (simp add: take_bit_eq_mod drop_bit_eq_div)

lemma f_sign_unat: "f_sign x \<longleftrightarrow> 2 ^ 63 \<le> unat x"
proof -
  have "f_sign x \<longleftrightarrow> odd (unat x div 2 ^ 63)"
  proof -
    have "bit (unat x) 63 \<longleftrightarrow> bit x 63"
      by (simp add: bit_unsigned_iff possible_bit_def)
    then show ?thesis by (simp add: f_sign_def bit_iff_odd)
  qed
  moreover have "unat x div 2 ^ 63 < 2"
    using unat_float_lt[of x] by (simp add: less_mult_imp_div_less)
  moreover have "2 ^ 63 \<le> unat x \<longleftrightarrow> unat x div 2 ^ 63 \<noteq> 0"
    by (auto simp: div_eq_0_iff)
  ultimately show ?thesis
    by (cases "unat x div 2 ^ 63 = 0") (auto simp: less_2_cases_iff)
qed

lemma f_exp_lt: "f_exp x < 2048"
  by (simp add: f_exp_unat)

lemma f_frac_lt: "f_frac x < 2 ^ 52"
  by (simp add: f_frac_unat)

lemma unat_f_make:
  assumes "e < 2048" "f < 2 ^ 52"
  shows "unat (f_make s e f) = (if s then 2 ^ 63 else 0) + e * 2 ^ 52 + f"
proof -
  have "e * 2 ^ 52 + f < (2::nat) ^ 63"
  proof -
    have "e * 2 ^ 52 \<le> 2047 * (2::nat) ^ 52" using assms(1) by simp
    then show ?thesis using assms(2) by simp
  qed
  then have "(if s then 2 ^ 63 else 0) + e * 2 ^ 52 + f < (2::nat) ^ 64" by auto
  then show ?thesis unfolding f_make_def unat_of_nat by simp
qed

subsection \<open>Floor of the binary logarithm\<close>

lemma pow2_le_shift:
  assumes "0 \<le> p + int K"
  shows "pow2_le n d p \<longleftrightarrow> d * 2 ^ nat (p + int K) \<le> n * 2 ^ K"
proof (cases "0 \<le> p")
  case True
  then have "nat (p + int K) = nat p + K" by simp
  then have eq: "d * 2 ^ nat (p + int K) = (d * 2 ^ nat p) * 2 ^ K" by (simp add: power_add)
  show ?thesis unfolding pow2_le_def eq using True by simp
next
  case False
  define j where "j = nat (- p)"
  have jK: "j \<le> K" "nat (p + int K) = K - j" using False assms by (auto simp: j_def)
  have "(2::nat) ^ K = 2 ^ j * 2 ^ (K - j)"
    by (metis jK(1) le_add_diff_inverse power_add)
  then have h: "n * 2 ^ K = (n * 2 ^ j) * 2 ^ (K - j)" by simp
  have "d * 2 ^ (K - j) \<le> n * 2 ^ K \<longleftrightarrow> d * 2 ^ (K - j) \<le> (n * 2 ^ j) * 2 ^ (K - j)"
    by (simp only: h)
  also have "\<dots> \<longleftrightarrow> d \<le> n * 2 ^ j" by simp
  finally have "d * 2 ^ (K - j) \<le> n * 2 ^ K \<longleftrightarrow> d \<le> n * 2 ^ j" .
  with False jK show ?thesis by (simp add: pow2_le_def j_def)
qed

lemma pow2_le_mono:
  assumes "pow2_le n d p" "q \<le> p"
  shows "pow2_le n d q"
proof -
  define K where "K = nat (- q)"
  have q: "0 \<le> q + int K" and p: "0 \<le> p + int K" using assms(2) by (auto simp: K_def)
  have "d * 2 ^ nat (q + int K) \<le> d * 2 ^ nat (p + int K)"
    using assms(2) by (intro mult_le_mono2 power_increasing) auto
  also have "\<dots> \<le> n * 2 ^ K" using assms(1) pow2_le_shift[OF p] by simp
  finally show ?thesis using pow2_le_shift[OF q] by simp
qed

lemma pow2_le_scale: "0 < c \<Longrightarrow> pow2_le (c * n) (c * d) p = pow2_le n d p"
  by (simp add: pow2_le_def mult.assoc)

lemma pow2_le_pow2:
  "pow2_le (n * 2 ^ a) (d * 2 ^ b) p = pow2_le n d (p - int a + int b)"
proof -
  define K where "K = nat (- p) + a"
  have k1: "0 \<le> p + int (K + b)" and k2: "0 \<le> p - int a + int b + int K"
    by (auto simp: K_def)
  have e: "nat (p + int (K + b)) = nat (p - int a + int b + int K) + a"
    using k2 by (simp add: K_def)
  have "pow2_le (n * 2 ^ a) (d * 2 ^ b) p \<longleftrightarrow>
        (d * 2 ^ nat (p - int a + int b + int K)) * 2 ^ (a + b) \<le> (n * 2 ^ K) * 2 ^ (a + b)"
    unfolding pow2_le_shift[OF k1] e by (simp add: power_add ac_simps)
  also have "\<dots> \<longleftrightarrow> pow2_le n d (p - int a + int b)"
    using pow2_le_shift[OF k2] by simp
  finally show ?thesis .
qed

lemma bitlen_nat_bounds:
  assumes "0 < n"
  shows "2 ^ (nat (bitlen (int n)) - 1) \<le> n" "n < 2 ^ nat (bitlen (int n))" "1 \<le> nat (bitlen (int n))"
proof -
  have b: "2 ^ nat (bitlen (int n) - 1) \<le> int n \<and> int n < 2 ^ nat (bitlen (int n))"
    using assms by (intro bitlen_bounds) simp
  have "0 < bitlen (int n)" using assms by (simp add: bitlen_alt_def)
  then show "1 \<le> nat (bitlen (int n))" by simp
  have e: "nat (bitlen (int n) - 1) = nat (bitlen (int n)) - 1" by arith
  from b show "2 ^ (nat (bitlen (int n)) - 1) \<le> n" "n < 2 ^ nat (bitlen (int n))"
    unfolding e by (simp_all flip: of_nat_less_iff of_nat_le_iff)
qed

lemma ilog2q_spec:
  assumes "0 < n" "0 < d"
  shows "pow2_le n d (ilog2q n d)" "\<not> pow2_le n d (ilog2q n d + 1)"
proof -
  define bn where "bn = nat (bitlen (int n))"
  define bd where "bd = nat (bitlen (int d))"
  note N = bitlen_nat_bounds[OF assms(1), folded bn_def]
  note D = bitlen_nat_bounds[OF assms(2), folded bd_def]
  define p where "p = bitlen (int n) - bitlen (int d)"
  have p: "p = int bn - int bd" by (simp add: p_def bn_def bd_def bitlen_nonneg)
  have lo: "pow2_le n d (p - 1)"
  proof -
    have k: "0 \<le> p - 1 + int bd" and e: "nat (p - 1 + int bd) = bn - 1" using p N(3) by auto
    have "d * 2 ^ (bn - 1) \<le> 2 ^ bd * 2 ^ (bn - 1)" using D(2) by simp
    also have "\<dots> \<le> n * 2 ^ bd" using N(1) by (simp add: mult.commute)
    finally show ?thesis using pow2_le_shift[OF k] e by simp
  qed
  have hi: "\<not> pow2_le n d (p + 1)"
  proof -
    have k: "0 \<le> p + 1 + int bd" and e: "nat (p + 1 + int bd) = bn + 1" using p by auto
    have "n * 2 ^ bd < 2 ^ bn * 2 ^ bd" using N(2) by simp
    also have "\<dots> = 2 ^ (bd - 1) * 2 ^ (bn + 1)"
      using D(3) by (cases bd) (simp_all add: power_add ac_simps)
    also have "\<dots> \<le> d * 2 ^ (bn + 1)" using D(1) by simp
    finally show ?thesis using pow2_le_shift[OF k] e by simp
  qed
  have il: "ilog2q n d = (if pow2_le n d p then p else p - 1)"
    by (simp add: ilog2q_def p_def Let_def)
  show "pow2_le n d (ilog2q n d)" using lo il by simp
  show "\<not> pow2_le n d (ilog2q n d + 1)" using hi il by auto
qed

lemma ilog2q_unique:
  assumes "0 < n" "0 < d" "pow2_le n d p" "\<not> pow2_le n d (p + 1)"
  shows "ilog2q n d = p"
proof -
  note S = ilog2q_spec[OF assms(1,2)]
  have "\<not> ilog2q n d + 1 \<le> p" using S(2) assms(3) pow2_le_mono by blast
  moreover have "\<not> p + 1 \<le> ilog2q n d" using S(1) assms(4) pow2_le_mono by blast
  ultimately show ?thesis by simp
qed

lemma ilog2q_scale:
  assumes "0 < c" "0 < n" "0 < d"
  shows "ilog2q (c * n) (c * d) = ilog2q n d"
  using assms ilog2q_spec[OF assms(2,3)]
  by (intro ilog2q_unique) (simp_all add: pow2_le_scale)

subsection \<open>Rounding: scale invariance and exact values\<close>

lemma rne_div_scale: "0 < c \<Longrightarrow> rne_div (c * a) (c * b) = rne_div a b"
  by (simp add: rne_div_def Let_def)

lemma rne_div_exact: "0 < b \<Longrightarrow> rne_div (m * b) b = m"
  by (simp add: rne_div_def)

lemma round_div_scale:
  assumes "0 < c" "0 < d"
  shows "round_div s (c * n) (c * d) = round_div s n d"
proof (cases "n = 0")
  case True
  then show ?thesis by (simp add: round_div_def)
next
  case False
  have "quantum (c * n) (c * d) = quantum n d"
    using assms False by (simp add: quantum_def ilog2q_scale)
  moreover have "rne_div (c * n * k) (c * d) = rne_div (n * k) d"
    and "rne_div (c * n) (c * d * k) = rne_div n (d * k)" for k
    using rne_div_scale[OF assms(1)] by (simp_all add: mult.assoc)
  ultimately show ?thesis using False assms(1) by (simp add: round_div_def Let_def)
qed

lemma round_div_exact:
  assumes "canonical m (int a - int b)"
  shows "round_div s (m * 2 ^ a) (2 ^ b) = encode_mq s m (int a - int b)"
proof (cases "m = 0")
  case True
  then show ?thesis by (simp add: round_div_def encode_mq_def)
next
  case False
  define q where "q = int a - int b"
  have pw: "pow2_le (m * 2 ^ a) (2 ^ b) p = pow2_le m (Suc 0) (p - q)" for p
    using pow2_le_pow2[of m a 1 b p] by (simp add: q_def algebra_simps)
  have m1: "pow2_le m (Suc 0) k \<longleftrightarrow> 2 ^ nat k \<le> m" if "0 \<le> k" for k
    using that by (simp add: pow2_le_def)
  have pos: "0 < m * 2 ^ a" "0 < (2::nat) ^ b" using False by simp_all
  have qq: "quantum (m * 2 ^ a) (2 ^ b) = q"
  proof (cases "2 ^ 52 \<le> m")
    case True
    with assms have lt: "m < 2 ^ 53" "-1074 \<le> q" by (auto simp: canonical_def q_def)
    have "ilog2q (m * 2 ^ a) (2 ^ b) = q + 52"
      using pos True lt(1) by (intro ilog2q_unique) (simp_all add: pw m1 not_le)
    then show ?thesis using lt(2) by (simp add: quantum_def)
  next
    case False
    with assms have q: "q = -1074" by (auto simp: canonical_def q_def)
    have "pow2_le (m * 2 ^ a) (2 ^ b) (ilog2q (m * 2 ^ a) (2 ^ b))"
      using pos by (intro ilog2q_spec) simp_all
    then have "pow2_le m (Suc 0) (ilog2q (m * 2 ^ a) (2 ^ b) - q)" by (simp add: pw)
    moreover have "\<not> pow2_le m (Suc 0) 52" using False by (simp add: m1)
    ultimately have "ilog2q (m * 2 ^ a) (2 ^ b) - q < 52"
      using pow2_le_mono[of m "Suc 0" _ 52] by (metis not_less)
    then show ?thesis using q by (simp add: quantum_def)
  qed
  have lt53: "m \<noteq> 2 ^ 53" using assms by (auto simp: canonical_def)
  show ?thesis
  proof (cases "q \<le> 0")
    case True
    then have "(2::nat) ^ a * 2 ^ nat (- q) = 2 ^ b"
      by (simp add: q_def power_add[symmetric] nat_diff_distrib')
    then have "rne_div (m * 2 ^ a * 2 ^ nat (- q)) (2 ^ b) = m"
      by (simp add: mult.assoc rne_div_exact)
    then show ?thesis using True False qq lt53
      by (simp add: round_div_def Let_def rne_div_exact q_def[symmetric])
  next
    case False
    then have "2 ^ b * 2 ^ nat q = (2::nat) ^ a"
      by (simp add: q_def power_add[symmetric])
    then have "rne_div (m * 2 ^ a) (2 ^ b * 2 ^ nat q) = m"
      by (simp add: rne_div_exact)
    then show ?thesis using False \<open>m \<noteq> 0\<close> qq lt53
      by (simp add: round_div_def Let_def rne_div_exact q_def[symmetric])
  qed
qed

lemma round_val_eq_div:
  assumes "int a - int b = q"
  shows "round_val s m q = round_div s (m * 2 ^ a) (2 ^ b)"
proof (cases "0 \<le> q")
  case True
  then have a: "a = nat q + b" using assms by simp
  have "round_div s (m * 2 ^ a) (2 ^ b) = round_div s (2 ^ b * (m * 2 ^ nat q)) (2 ^ b * 1)"
    by (simp add: a power_add ac_simps)
  also have "\<dots> = round_div s (m * 2 ^ nat q) 1" by (rule round_div_scale) simp_all
  finally show ?thesis using True by (simp add: round_val_def)
next
  case False
  then have b: "b = nat (- q) + a" using assms by simp
  have "round_div s (m * 2 ^ a) (2 ^ b) = round_div s (2 ^ a * m) (2 ^ a * 2 ^ nat (- q))"
    by (simp add: b power_add ac_simps)
  also have "\<dots> = round_div s m (2 ^ nat (- q))" by (rule round_div_scale) simp_all
  finally show ?thesis using False by (simp add: round_val_def)
qed

lemma round_val_scale: "round_val s (m * 2 ^ k) (q - int k) = round_val s m q"
proof -
  obtain a b where ab: "int a - int b = q"
    by (metis int_diff_cases)
  have "round_val s (m * 2 ^ k) (q - int k) = round_div s (m * 2 ^ k * 2 ^ a) (2 ^ (b + k))"
    by (rule round_val_eq_div) (use ab in simp)
  also have "\<dots> = round_div s (2 ^ k * (m * 2 ^ a)) (2 ^ k * 2 ^ b)"
    by (simp add: power_add ac_simps)
  also have "\<dots> = round_div s (m * 2 ^ a) (2 ^ b)" by (rule round_div_scale) simp_all
  also have "\<dots> = round_val s m q" by (rule round_val_eq_div[symmetric]) (rule ab)
  finally show ?thesis .
qed

lemma round_val_exact: "canonical m q \<Longrightarrow> round_val s m q = encode_mq s m q"
proof -
  assume c: "canonical m q"
  obtain a b where ab: "int a - int b = q" by (metis int_diff_cases)
  show ?thesis using round_val_eq_div[OF ab] round_div_exact[of m a b s] c ab by simp
qed

lemma f_make_fields: "f_make (f_sign x) (f_exp x) (f_frac x) = x"
proof -
  define u where "u = unat x"
  define A where "A = u div 2 ^ 52"
  define B where "B = u mod 2 ^ 52"
  define C where "C = A mod 2048"
  define D where "D = A div 2048"
  have u: "u < 2 ^ 64" using unat_float_lt by (simp add: u_def)
  have a: "u = A * 2 ^ 52 + B" by (simp add: A_def B_def)
  have b: "A = D * 2048 + C" by (simp add: C_def D_def)
  have c: "D = u div 2 ^ 63" by (simp add: D_def A_def div_mult2_eq[symmetric])
  have d: "u div 2 ^ 63 = (if 2 ^ 63 \<le> u then 1 else 0)"
    using u by (auto simp: div_eq_0_iff intro: div_less le_less_trans)
  have lhs: "unat (f_make (f_sign x) (f_exp x) (f_frac x)) = (if 2 ^ 63 \<le> u then 2 ^ 63 else 0) + C * 2 ^ 52 + B"
    by (simp add: unat_f_make f_exp_lt f_frac_lt f_sign_unat f_exp_unat f_frac_unat u_def A_def B_def C_def)
  have "(if 2 ^ 63 \<le> u then 2 ^ 63 else 0) + C * 2 ^ 52 + B = u"
  proof (cases "2 ^ 63 \<le> u")
    case True
    then have "D = 1" using c d by simp
    then show ?thesis using True a b by simp
  next
    case False
    then have "D = 0" using c d by simp
    then show ?thesis using False a b by simp
  qed
  then show ?thesis using lhs by (simp add: word_unat_eq_iff u_def)
qed

lemma f_make_sel:
  assumes "e < 2048" "f < 2 ^ 52"
  shows "f_sign (f_make s e f) = s" "f_exp (f_make s e f) = e" "f_frac (f_make s e f) = f"
proof -
  have u: "unat (f_make s e f) = (if s then 2 ^ 63 else 0) + e * 2 ^ 52 + f"
    by (rule unat_f_make[OF assms])
  have lt: "e * 2 ^ 52 + f < (2::nat) ^ 63"
  proof -
    have "e * 2 ^ 52 \<le> 2047 * (2::nat) ^ 52" using assms(1) by simp
    then show ?thesis using assms(2) by simp
  qed
  show "f_sign (f_make s e f) = s" using lt by (simp add: f_sign_unat u)
  define k where "k = (if s then 2048 else 0) + e"
  have eq: "unat (f_make s e f) = k * 2 ^ 52 + f"
    by (simp add: u k_def)
  then have "unat (f_make s e f) div 2 ^ 52 = k"
    using assms(2) by simp
  then show "f_exp (f_make s e f) = e"
    using assms(1) by (simp add: f_exp_unat k_def)
  have "(k * 2 ^ 52 + f) mod 2 ^ 52 = f" using assms(2) by simp
  then show "f_frac (f_make s e f) = f" using eq by (simp add: f_frac_unat)
qed

subsection \<open>Multiplication\<close>

lemma finite_canonical: "is_finite x \<Longrightarrow> canonical (f_signif x) (f_qexp x)"
  using f_frac_lt[of x] by (auto simp: canonical_def f_signif_def f_qexp_def is_finite_def)

lemma encode_fields: "is_finite x \<Longrightarrow> encode_mq (f_sign x) (f_signif x) (f_qexp x) = x"
  using f_frac_lt[of x] f_make_fields[of x]
  by (auto simp: encode_mq_def f_signif_def f_qexp_def is_finite_def)

lemma f_make_class:
  assumes "e < 2048" "f < 2 ^ 52"
  shows "is_nan (f_make s e f) \<longleftrightarrow> e = 2047 \<and> f \<noteq> 0"
    "is_inf (f_make s e f) \<longleftrightarrow> e = 2047 \<and> f = 0"
    "is_zero (f_make s e f) \<longleftrightarrow> e = 0 \<and> f = 0"
    "is_finite (f_make s e f) \<longleftrightarrow> e < 2047"
  using f_make_sel[OF assms] by (simp_all add: is_nan_def is_inf_def is_zero_def is_finite_def)

lemma finite_not_special: "is_finite x \<Longrightarrow> \<not> is_nan x \<and> \<not> is_inf x"
  by (simp add: is_finite_def is_nan_def is_inf_def)

text \<open>Multiplying a finite operand by a normal power of two \<open>2^(e - 1023)\<close>.\<close>

lemma fmul_pow2:
  assumes "is_finite x" "0 < e" "e < 2047"
  shows "fmul (f_make False e 0) x = round_val (f_sign x) (f_signif x) (f_qexp x + int e - 1023)"
proof -
  have sel: "f_sign (f_make False e 0) = False" "f_exp (f_make False e 0) = e"
    "f_frac (f_make False e 0) = 0"
    using f_make_sel[of e 0 False] assms(3) by simp_all
  have cls: "\<not> is_nan (f_make False e 0)" "\<not> is_inf (f_make False e 0)" "\<not> is_zero (f_make False e 0)"
    using f_make_class[of e 0 False] assms(2,3) by simp_all
  have "fmul (f_make False e 0) x =
        round_val (f_sign x) (f_signif x * 2 ^ 52) (f_qexp x + int e - 1023 - int 52)"
    using assms(1) assms(2) sel cls finite_not_special[OF assms(1)]
    by (simp add: fmul_def f_signif_def f_qexp_def algebra_simps)
  then show ?thesis by (simp only: round_val_scale)
qed

end
