(* ===== verification/JsObject.thy ===== *)
theory JsObject
  imports Float64 "HOL-Library.AList"
begin

text \<open>
  The part of the ECMAScript 2015 object model that src/bundle.js exercises:
  values, ordinary objects with data properties and their attributes, the
  heap they live in, property read (\<open>o.k\<close>), property assignment
  (\<open>o.k = v\<close>) in strict code (the module functions, lines 47 and 69 say
  \<open>"use strict"\<close>) and in non-strict code (the bootstrap),
  \<open>Object.defineProperty\<close> with a data descriptor, \<open>hasOwnProperty\<close>, the
  key order of \<open>for (key in obj)\<close>, and \<open>console.log\<close>.
  Function objects are heap objects with an internal \<open>call\<close> slot naming
  which function of the bundle they are. Prototype chains are not modelled:
  no property the bundle reads is inherited (Object.prototype and
  Function.prototype have no enumerable properties and none of the names
  \<open>__esModule\<close>, \<open>area\<close>, \<open>PI\<close>, \<open>exports\<close>, \<open>loaded\<close>, \<open>default\<close>).
\<close>

type_synonym addr = nat

text \<open>
  The functions the bundle declares inside its modules:
  \<open>_interopRequireWildcard\<close> of module 0 (line 53) and \<open>circumference\<close>
  and \<open>area\<close> of module 1 (lines 77--82).
\<close>

datatype jsfun = FInterop | FCircumference | FArea

text \<open>
  Name, declared parameter count and source text of each function; the
  source text is what Function.prototype.toString returns in engines that
  follow the later editions (the 2015 edition leaves it to the engine).
\<close>

fun fun_name :: "jsfun \<Rightarrow> string" where
  "fun_name FInterop = ''_interopRequireWildcard''"
| "fun_name FCircumference = ''circumference''"
| "fun_name FArea = ''area''"

definition nl_tab :: string where
  "nl_tab = [CHR 0x0A, CHR 0x09]"

fun fun_source :: "jsfun \<Rightarrow> string" where
  "fun_source FInterop =
     ''function _interopRequireWildcard(obj) { if (obj && obj.__esModule) { return obj; } else { var newObj = {}; if (obj != null) { for (var key in obj) { if (Object.prototype.hasOwnProperty.call(obj, key)) newObj[key] = obj[key]; } } newObj.default = obj; return newObj; } }''"
| "fun_source FCircumference =
     ''function circumference(r) {'' @ nl_tab @ ''    return 2 * PI * r;'' @ nl_tab @ ''}''"
| "fun_source FArea = ''function area(r) {'' @ nl_tab @ ''    return PI * r * r;'' @ nl_tab @ ''}''"

datatype jsval = JUndef | JNull | JBool bool | JNum float64 | JStr string | JObj addr

record property =
  pval :: jsval
  writable :: bool
  enumerable :: bool
  configurable :: bool

text \<open>Own properties in creation order, and the function slot.\<close>

record obj =
  props :: "(string \<times> property) list"
  call :: "jsfun option"

datatype js_error = TypeError | RangeError

text \<open>The JavaScript heap (objects by address) and the lines written to stdout.\<close>

record js_state =
  heap :: "obj list"
  console :: "jsval list"

type_synonym ('x, 'a) jsm = "(js_error, 'x js_state_scheme, 'a) stmt"

subsection \<open>Objects and the heap\<close>

definition empty_obj :: obj where
  "empty_obj = \<lparr>props = [], call = None\<rparr>"

text \<open>The property an assignment or an object literal creates.\<close>

definition data_prop :: "jsval \<Rightarrow> property" where
  "data_prop v = \<lparr>pval = v, writable = True, enumerable = True, configurable = True\<rparr>"

definition get_own :: "obj \<Rightarrow> string \<Rightarrow> property option" where
  "get_own ob k = map_of (props ob) k"

text \<open>The value of an own property, \<open>undefined\<close> when there is none.\<close>

definition own_val :: "obj \<Rightarrow> string \<Rightarrow> jsval" where
  "own_val ob k = (case get_own ob k of Some p \<Rightarrow> pval p | None \<Rightarrow> JUndef)"

definition set_own :: "obj \<Rightarrow> string \<Rightarrow> property \<Rightarrow> obj" where
  "set_own ob k p = ob\<lparr>props := AList.update k p (props ob)\<rparr>"

definition obj_at :: "addr \<Rightarrow> 'x js_state_scheme \<Rightarrow> obj option" where
  "obj_at a s = list_get (heap s) a"

definition alloc :: "obj \<Rightarrow> ('x, addr) jsm" where
  "alloc ob s = (Inr (length (heap s)), s\<lparr>heap := heap s @ [ob]\<rparr>)"

definition upd_obj :: "addr \<Rightarrow> obj \<Rightarrow> 'x js_state_scheme \<Rightarrow> 'x js_state_scheme" where
  "upd_obj a ob s = s\<lparr>heap := (heap s)[a := ob]\<rparr>"

subsection \<open>Strings as array-like values\<close>

definition digit_of :: "char \<Rightarrow> nat option" where
  "digit_of c = (let n = of_char c :: nat in if 48 \<le> n \<and> n \<le> 57 then Some (n - 48) else None)"

fun digits_val :: "nat \<Rightarrow> string \<Rightarrow> nat option" where
  "digits_val acc [] = Some acc"
| "digits_val acc (c # cs) = (case digit_of c of None \<Rightarrow> None | Some d \<Rightarrow> digits_val (10 * acc + d) cs)"

definition digit_char :: "nat \<Rightarrow> char" where
  "digit_char d = ''0123456789'' ! d"

fun show_nat :: "nat \<Rightarrow> string" where
  "show_nat n = (if n < 10 then [digit_char n] else show_nat (n div 10) @ [digit_char (n mod 10)])"

text \<open>
  A property key that is an array index: the canonical decimal form of an
  integer below \<open>2^32 - 1\<close> (ECMAScript 2015, 9.4.2).
\<close>

definition array_index :: "string \<Rightarrow> nat option" where
  "array_index k =
     (case digits_val 0 k of
        Some n \<Rightarrow> if k \<noteq> [] \<and> show_nat n = k \<and> n < 2 ^ 32 - 1 then Some n else None
      | None \<Rightarrow> None)"

subsection \<open>Property access\<close>

text \<open>
  \<open>base.k\<close> (GetValue of a property reference): a TypeError on
  \<open>undefined\<close> and \<open>null\<close>, the own property of an object or \<open>undefined\<close>,
  the \<open>length\<close> and the characters of a string.
\<close>

definition get_value :: "jsval \<Rightarrow> string \<Rightarrow> ('x, jsval) jsm" where
  "get_value base k s =
     (case base of
        JUndef \<Rightarrow> throw TypeError s
      | JNull \<Rightarrow> throw TypeError s
      | JObj a \<Rightarrow>
          (case obj_at a s of
             None \<Rightarrow> ret JUndef s
           | Some ob \<Rightarrow> (case get_own ob k of None \<Rightarrow> ret JUndef s | Some p \<Rightarrow> ret (pval p) s))
      | JStr str \<Rightarrow>
          (if k = ''length'' then ret (JNum (dec_lit (length str) 0)) s
           else case array_index k of
                  Some i \<Rightarrow> ret (if i < length str then JStr [str ! i] else JUndef) s
                | None \<Rightarrow> ret JUndef s)
      | _ \<Rightarrow> ret JUndef s)"

text \<open>
  \<open>base.k = v\<close> in strict code: a TypeError on \<open>undefined\<close>, \<open>null\<close> and
  every primitive (the set on the wrapper object fails and strict mode
  throws), and on a non-writable own property; otherwise the own property is
  updated in place or a new enumerable one is added at the end.
\<close>

definition put_value :: "jsval \<Rightarrow> string \<Rightarrow> jsval \<Rightarrow> ('x, unit) jsm" where
  "put_value base k v s =
     (case base of
        JObj a \<Rightarrow>
          (case obj_at a s of
             None \<Rightarrow> throw TypeError s
           | Some ob \<Rightarrow>
               (case get_own ob k of
                  None \<Rightarrow> ret () (upd_obj a (set_own ob k (data_prop v)) s)
                | Some p \<Rightarrow>
                    if writable p then ret () (upd_obj a (set_own ob k (p\<lparr>pval := v\<rparr>)) s)
                    else throw TypeError s))
      | _ \<Rightarrow> throw TypeError s)"

text \<open>
  \<open>base.k = v\<close> in non-strict code, as in the bootstrap (lines 1--41 have no
  \<open>"use strict"\<close>; only the module functions do): the same set, but a
  non-writable own property is left as it is without an error, and a
  primitive base sets nothing; \<open>undefined\<close> and \<open>null\<close> are still a
  TypeError.
\<close>

definition put_value_sloppy :: "jsval \<Rightarrow> string \<Rightarrow> jsval \<Rightarrow> ('x, unit) jsm" where
  "put_value_sloppy base k v s =
     (case base of
        JObj a \<Rightarrow>
          (case obj_at a s of
             None \<Rightarrow> throw TypeError s
           | Some ob \<Rightarrow>
               (case get_own ob k of
                  None \<Rightarrow> ret () (upd_obj a (set_own ob k (data_prop v)) s)
                | Some p \<Rightarrow>
                    if writable p then ret () (upd_obj a (set_own ob k (p\<lparr>pval := v\<rparr>)) s)
                    else ret () s))
      | JUndef \<Rightarrow> throw TypeError s
      | JNull \<Rightarrow> throw TypeError s
      | _ \<Rightarrow> ret () s)"

text \<open>
  SameValue on the values the bundle stores (ECMAScript 2015, 7.2.9): NaN is
  the same as NaN, \<open>+0\<close> and \<open>-0\<close> differ.
\<close>

fun same_value :: "jsval \<Rightarrow> jsval \<Rightarrow> bool" where
  "same_value (JNum x) (JNum y) = ((is_nan x \<and> is_nan y) \<or> x = y)"
| "same_value a b = (a = b)"

text \<open>
  \<open>Object.defineProperty(o, k, {value: v})\<close>: ValidateAndApplyPropertyDescriptor
  for a descriptor that has only a value field. A new property gets every
  absent attribute \<open>false\<close>; an existing one keeps its attributes and takes
  the value, unless it is neither configurable nor writable and the value
  differs, which is a TypeError. A non-object target is a TypeError.
\<close>

definition define_value_prop :: "jsval \<Rightarrow> string \<Rightarrow> jsval \<Rightarrow> ('x, unit) jsm" where
  "define_value_prop base k v s =
     (case base of
        JObj a \<Rightarrow>
          (case obj_at a s of
             None \<Rightarrow> throw TypeError s
           | Some ob \<Rightarrow>
               (case get_own ob k of
                  None \<Rightarrow> ret () (upd_obj a (set_own ob k
                            \<lparr>pval = v, writable = False, enumerable = False, configurable = False\<rparr>) s)
                | Some p \<Rightarrow>
                    if \<not> configurable p \<and> \<not> writable p \<and> \<not> same_value v (pval p) then throw TypeError s
                    else ret () (upd_obj a (set_own ob k (p\<lparr>pval := v\<rparr>)) s)))
      | _ \<Rightarrow> throw TypeError s)"

text \<open>\<open>Object.prototype.hasOwnProperty.call(base, k)\<close> for a non-null base.\<close>

definition has_own :: "jsval \<Rightarrow> string \<Rightarrow> 'x js_state_scheme \<Rightarrow> bool" where
  "has_own base k s =
     (case base of
        JObj a \<Rightarrow> (case obj_at a s of None \<Rightarrow> False | Some ob \<Rightarrow> get_own ob k \<noteq> None)
      | JStr str \<Rightarrow> k = ''length'' \<or> (case array_index k of Some i \<Rightarrow> i < length str | None \<Rightarrow> False)
      | _ \<Rightarrow> False)"

text \<open>
  The keys \<open>for (key in base)\<close> visits: the enumerable own keys in
  [[OwnPropertyKeys]] order (array indices ascending, then the other string
  keys in creation order); the indices of a string; nothing for the other
  primitives, \<open>undefined\<close> and \<open>null\<close>.
\<close>

definition own_keys :: "obj \<Rightarrow> string list" where
  "own_keys ob =
     (let ks = map fst (props ob);
          idx = filter (\<lambda>k. array_index k \<noteq> None) ks
      in sort_key (\<lambda>k. the (array_index k)) idx @ filter (\<lambda>k. array_index k = None) ks)"

definition enum_keys :: "jsval \<Rightarrow> 'x js_state_scheme \<Rightarrow> string list" where
  "enum_keys base s =
     (case base of
        JObj a \<Rightarrow>
          (case obj_at a s of
             None \<Rightarrow> []
           | Some ob \<Rightarrow> filter (\<lambda>k. case get_own ob k of Some p \<Rightarrow> enumerable p | None \<Rightarrow> False) (own_keys ob))
      | JStr str \<Rightarrow> map show_nat [0..<length str]
      | _ \<Rightarrow> [])"

text \<open>\<open>console.log(v)\<close>: one line on standard output; its formatting is the host's.\<close>

definition console_log :: "jsval \<Rightarrow> ('x, unit) jsm" where
  "console_log v s = (Inr (), s\<lparr>console := console s @ [v]\<rparr>)"

subsection \<open>Frame and update lemmas\<close>

lemma update_absent: "k \<notin> fst ` set ps \<Longrightarrow> AList.update k v ps = ps @ [(k, v)]"
  by (induction ps) auto

lemma obj_at_update_other: "a \<noteq> n \<Longrightarrow> obj_at a (s\<lparr>heap := (heap s)[n := ob]\<rparr>) = obj_at a s"
  by (simp add: obj_at_def list_get_def)

lemma own_keys_distinct:
  assumes "distinct (map fst (props ob))"
  shows "distinct (own_keys ob)" "set (own_keys ob) = fst ` set (props ob)"
  using assms by (auto simp: own_keys_def Let_def)

lemma enum_keys_obj:
  assumes "obj_at a s = Some ob" "distinct (map fst (props ob))"
  shows "distinct (enum_keys (JObj a) s)" "set (enum_keys (JObj a) s) \<subseteq> fst ` set (props ob)"
  using assms own_keys_distinct[OF assms(2)] by (auto simp: enum_keys_def)

text \<open>An assignment to an object whose properties are all data properties.\<close>

lemma put_value_data_props:
  assumes "obj_at n t = Some \<lparr>props = map (\<lambda>k. (k, data_prop (f k))) ks, call = None\<rparr>"
  shows "put_value (JObj n) k v t =
    (Inr (), upd_obj n \<lparr>props = AList.update k (data_prop v) (map (\<lambda>k. (k, data_prop (f k))) ks), call = None\<rparr> t)"
proof (cases "map_of (map (\<lambda>k. (k, data_prop (f k))) ks) k")
  case None
  then show ?thesis using assms by (simp add: put_value_def get_own_def set_own_def ret_def)
next
  case (Some p)
  then have "p = data_prop (f k)" by (auto dest: map_of_SomeD)
  then show ?thesis using assms Some by (simp add: put_value_def get_own_def set_own_def ret_def data_prop_def)
qed

end
