(* ===== verification/Loader.thy ===== *)
theory Loader
  imports JsObject
begin

text \<open>
  The webpack bootstrap of src/bundle.js (lines 1--41): the module cache
  \<open>installedModules\<close> and the require function \<open>__webpack_require__\<close>.
  The runtime state extends the JavaScript state with the cache, a map from
  module ids to the address of the module object \<open>{exports, id, loaded}\<close>
  stored in it. A module function of the registry (\<open>modules\<close>, the array
  literal of lines 43--85) is a statement that receives the require
  function, the module object and its exports, as line 20 passes them.
  Recursion through require is bounded by a stack depth \<open>n\<close>: a call with no
  frame left throws RangeError, as an engine's stack overflow does.
\<close>

record rt_state = js_state +
  installed :: "nat \<rightharpoonup> addr"

type_synonym 'a rt = "(js_error, rt_state, 'a) stmt"

type_synonym require_fn = "nat \<Rightarrow> jsval rt"

type_synonym module_fn = "require_fn \<Rightarrow> addr \<Rightarrow> jsval \<Rightarrow> unit rt"

text \<open>The object literal \<open>{exports: {}, id: moduleId, loaded: false}\<close> of lines 13--17.\<close>

definition module_obj :: "addr \<Rightarrow> nat \<Rightarrow> obj" where
  "module_obj e mid =
     \<lparr>props = [(''exports'', data_prop (JObj e)), (''id'', data_prop (JNum (dec_lit mid 0))),
               (''loaded'', data_prop (JBool False))],
      call = None\<rparr>"

definition install :: "nat \<Rightarrow> addr \<Rightarrow> unit rt" where
  "install mid m s = (Inr (), s\<lparr>installed := (installed s)(mid \<mapsto> m)\<rparr>)"

text \<open>
  \<open>__webpack_require__(moduleId)\<close>, lines 6--27: a cached module returns its
  \<open>exports\<close> (lines 9--10); otherwise the exports object and the module
  object are created and cached (lines 13--17) before the module function is
  looked up and called (line 20, a TypeError when \<open>modules[moduleId]\<close> is
  undefined), \<open>loaded\<close> is set (line 23) and \<open>module.exports\<close> is
  returned (line 26).
\<close>

primrec require :: "nat \<Rightarrow> module_fn list \<Rightarrow> nat \<Rightarrow> jsval rt" where
  "require 0 mods mid = throw RangeError"
| "require (Suc n) mods mid =
     (\<lambda>s. case installed s mid of
        Some m \<Rightarrow> get_value (JObj m) ''exports'' s
      | None \<Rightarrow>
          bind_exc (alloc empty_obj) (\<lambda>e.
          bind_exc (alloc (module_obj e mid)) (\<lambda>m.
          bind_exc (install mid m) (\<lambda>_.
          (case list_get mods mid of
             None \<Rightarrow> throw TypeError
           | Some f \<Rightarrow>
               bind_exc (get_value (JObj m) ''exports'') (\<lambda>ex.
               bind_exc (f (require n mods) m ex) (\<lambda>_.
               bind_exc (put_value_sloppy (JObj m) ''loaded'' (JBool True)) (\<lambda>_.
               get_value (JObj m) ''exports''))))))) s)"

text \<open>
  The interface between the Loader and the module functions: a statement
  \<open>rt_grows\<close>-keeps the state when it never removes or rebinds a cache entry
  and never shrinks the heap. A module function is well behaved when it keeps
  the state so whenever the require function it is given does; the Loader's
  lemmas assume it of the registry, and BundleModules proves it of both
  modules of the bundle.
\<close>

definition rt_grows :: "rt_state \<Rightarrow> rt_state \<Rightarrow> bool" where
  "rt_grows s s' \<longleftrightarrow> installed s \<subseteq>\<^sub>m installed s' \<and> length (heap s) \<le> length (heap s') \<and>
     (\<forall>mid m. installed s mid = None \<longrightarrow> installed s' mid = Some m \<longrightarrow> m < length (heap s'))"

text \<open>
  The type invariant of the cache: every cached id names an object of the
  heap, so the read \<open>installedModules[moduleId].exports\<close> of a hit always
  reads a module object.
\<close>

definition cache_ok :: "rt_state \<Rightarrow> bool" where
  "cache_ok s \<longleftrightarrow> (\<forall>mid m. installed s mid = Some m \<longrightarrow> m < length (heap s))"

definition module_ok :: "module_fn \<Rightarrow> bool" where
  "module_ok f \<longleftrightarrow> (\<forall>req m ex. (\<forall>i. keeps rt_grows (req i)) \<longrightarrow> keeps rt_grows (f req m ex))"

text \<open>
  The interface for progress: a module function is live when, called on an
  empty exports object and a module object of the heap, it completes
  normally, whatever require function it is given (line 23 is non-strict,
  so it cannot fail on an object whatever the module did to it). Module 1 of
  the bundle is live; a module that requires others is not, since its
  require calls may throw. \<open>loaded_writable\<close> says that line 23 will take
  effect: the module object is there and its \<open>loaded\<close> is absent or
  writable.
\<close>

definition loaded_writable :: "addr \<Rightarrow> rt_state \<Rightarrow> bool" where
  "loaded_writable m s =
     (case obj_at m s of None \<Rightarrow> False
      | Some ob \<Rightarrow> (case get_own ob ''loaded'' of None \<Rightarrow> True | Some p \<Rightarrow> writable p))"

definition module_live :: "module_fn \<Rightarrow> bool" where
  "module_live f \<longleftrightarrow>
     (\<forall>req m e s. obj_at e s = Some empty_obj \<longrightarrow> m < length (heap s) \<longrightarrow>
        (\<exists>s'. f req m (JObj e) s = (Inr (), s') \<and> m < length (heap s')))"

text \<open>
  Progress along a request graph: \<open>req_ok D req\<close> says that a require
  function keeps the Loader's interface and returns normally, from every
  state, for the ids in \<open>D\<close>; a module function \<open>module_needs D\<close> when, given
  such a require function, it completes on a fresh exports object.
\<close>

definition req_ok :: "nat set \<Rightarrow> require_fn \<Rightarrow> bool" where
  "req_ok D req \<longleftrightarrow> (\<forall>i. keeps rt_grows (req i)) \<and> (\<forall>i\<in>D. \<forall>s. \<exists>v s'. req i s = (Inr v, s'))"

definition module_needs :: "nat set \<Rightarrow> module_fn \<Rightarrow> bool" where
  "module_needs D f \<longleftrightarrow>
     (\<forall>req m e s. req_ok D req \<longrightarrow> obj_at e s = Some empty_obj \<longrightarrow> m < length (heap s) \<longrightarrow>
        (\<exists>s'. f req m (JObj e) s = (Inr (), s') \<and> m < length (heap s')))"

text \<open>The state after lines 13--17 on a cache miss: two objects allocated, the id cached.\<close>

definition miss_state :: "nat \<Rightarrow> rt_state \<Rightarrow> rt_state" where
  "miss_state mid s =
     s\<lparr>heap := heap s @ [empty_obj, module_obj (length (heap s)) mid],
       installed := (installed s)(mid \<mapsto> Suc (length (heap s)))\<rparr>"

text \<open>The bootstrap itself (lines 1--3 and 40): an empty cache, then \<open>require(0)\<close>.\<close>

definition init_state :: rt_state where
  "init_state = \<lparr>heap = [], console = [], installed = Map.empty\<rparr>"

definition bootstrap :: "nat \<Rightarrow> module_fn list \<Rightarrow> (js_error + jsval) \<times> rt_state" where
  "bootstrap n mods = require n mods 0 init_state"

subsection \<open>The interface and the frame of each step\<close>

lemma rt_grows_refl: "reflp rt_grows"
  by (simp add: reflp_def rt_grows_def)

lemma rt_grows_trans: "transp rt_grows"
  unfolding transp_def rt_grows_def
proof (intro allI impI conjI)
  fix s1 s2 s3 :: rt_state and mid m
  assume a: "installed s1 \<subseteq>\<^sub>m installed s2 \<and> length (heap s1) \<le> length (heap s2) \<and>
      (\<forall>mid m. installed s1 mid = None \<longrightarrow> installed s2 mid = Some m \<longrightarrow> m < length (heap s2))"
    and b: "installed s2 \<subseteq>\<^sub>m installed s3 \<and> length (heap s2) \<le> length (heap s3) \<and>
      (\<forall>mid m. installed s2 mid = None \<longrightarrow> installed s3 mid = Some m \<longrightarrow> m < length (heap s3))"
  show "installed s1 \<subseteq>\<^sub>m installed s3" using a b by (blast intro: map_le_trans)
  show "length (heap s1) \<le> length (heap s3)" using a b by simp
  assume "installed s1 mid = None" "installed s3 mid = Some m"
  then show "m < length (heap s3)" using a b
    by (cases "installed s2 mid") (auto simp: map_le_def dom_def, metis order_less_le_trans)
qed

lemma keeps_rt_grows_bind [intro]:
  "keeps rt_grows m \<Longrightarrow> (\<And>x. keeps rt_grows (f x)) \<Longrightarrow> keeps rt_grows (bind_exc m f)"
  by (rule keeps_bind[OF rt_grows_trans rt_grows_refl])

lemma keeps_rt_grows_ret [intro]: "keeps rt_grows (ret x)" and keeps_rt_grows_throw [intro]: "keeps rt_grows (throw e)"
  using rt_grows_refl by auto

lemma get_value_state: "snd (get_value v k s) = s"
  by (simp add: get_value_def ret_def throw_def split: jsval.splits option.splits)

lemma keeps_get_value [intro]: "keeps rt_grows (get_value v k)"
  by (simp add: keeps_def get_value_state rt_grows_def)

lemma keeps_put_value [intro]: "keeps rt_grows (put_value v k x)"
  by (simp add: keeps_def rt_grows_def put_value_def ret_def throw_def upd_obj_def
      split: jsval.splits option.splits)

lemma keeps_put_value_sloppy [intro]: "keeps rt_grows (put_value_sloppy v k x)"
  by (simp add: keeps_def rt_grows_def put_value_sloppy_def ret_def throw_def upd_obj_def
      split: jsval.splits option.splits)

lemma keeps_alloc [intro]: "keeps rt_grows (alloc ob)"
  by (simp add: keeps_def alloc_def rt_grows_def)

lemma keeps_install [intro]:
  "installed s mid = None \<Longrightarrow> m < length (heap s) \<Longrightarrow> rt_grows s (snd (install mid m s))"
  by (auto simp: install_def rt_grows_def map_le_def)

lemma rt_grows_cache_ok: "rt_grows s s' \<Longrightarrow> cache_ok s \<Longrightarrow> cache_ok s'"
  unfolding rt_grows_def cache_ok_def by (metis domI map_le_def not_None_eq order_less_le_trans)

subsection \<open>The miss path and the growth invariant\<close>

lemma get_exports_miss:
  "get_value (JObj (Suc (length (heap s)))) ''exports'' (miss_state mid s) =
     (Inr (JObj (length (heap s))), miss_state mid s)"
  by (simp add: get_value_def obj_at_def list_get_def miss_state_def module_obj_def get_own_def
      data_prop_def nth_append ret_def)

lemma require_miss:
  assumes "installed s mid = None"
  shows "require (Suc n) mods mid s =
     (case list_get mods mid of
        None \<Rightarrow> (Inl TypeError, miss_state mid s)
      | Some f \<Rightarrow>
          bind_exc (f (require n mods) (Suc (length (heap s))) (JObj (length (heap s)))) (\<lambda>_.
          bind_exc (put_value_sloppy (JObj (Suc (length (heap s)))) ''loaded'' (JBool True)) (\<lambda>_.
          get_value (JObj (Suc (length (heap s)))) ''exports'')) (miss_state mid s))"
proof -
  have "bind_exc (alloc empty_obj) (\<lambda>e. bind_exc (alloc (module_obj e mid)) (\<lambda>m.
          bind_exc (install mid m) (g m e))) s = g (Suc (length (heap s))) (length (heap s)) () (miss_state mid s)"
    for g :: "addr \<Rightarrow> addr \<Rightarrow> unit \<Rightarrow> jsval rt"
    by (simp add: alloc_def install_def bind_exc_def miss_state_def)
  from this[of "\<lambda>m e _. (case list_get mods mid of None \<Rightarrow> throw TypeError
           | Some f \<Rightarrow>
               bind_exc (get_value (JObj m) ''exports'') (\<lambda>ex.
               bind_exc (f (require n mods) m ex) (\<lambda>_.
               bind_exc (put_value_sloppy (JObj m) ''loaded'' (JBool True)) (\<lambda>_.
               get_value (JObj m) ''exports''))))"]
  show ?thesis using assms
    by (simp add: get_exports_miss throw_def split: option.splits)
qed

lemma rt_grows_miss: "installed s mid = None \<Longrightarrow> rt_grows s (miss_state mid s)"
  by (auto simp: rt_grows_def miss_state_def map_le_def)

text \<open>From the state after lines 13--17 on, the rest of a miss keeps the interface.\<close>

lemma require_miss_grows:
  assumes ok: "list_all module_ok mods" and None: "installed s mid = None"
    and req: "\<And>i. keeps rt_grows (require n mods i)"
  shows "rt_grows (miss_state mid s) (snd (require (Suc n) mods mid s))"
proof (cases "list_get mods mid")
  case None': None
  then show ?thesis using rt_grows_refl by (simp add: require_miss[OF None] reflpD del: require.simps)
next
  case (Some f)
  then have "module_ok f" using ok by (auto simp: list_all_iff list_get_Some_iff)
  then have "keeps rt_grows (f (require n mods) m ex)" for m ex
    using req by (simp add: module_ok_def)
  then have "keeps rt_grows (bind_exc (f (require n mods) m ex) (\<lambda>_.
    bind_exc (put_value_sloppy (JObj m) ''loaded'' (JBool True)) (\<lambda>_. get_value (JObj m) ''exports'')))"
    for m ex by blast
  then show ?thesis using Some by (simp add: require_miss[OF None] keeps_def del: require.simps)
qed

lemma require_keeps:
  assumes "list_all module_ok mods"
  shows "keeps rt_grows (require n mods mid)"
proof (induction n arbitrary: mid)
  case 0
  then show ?case by (simp add: keeps_rt_grows_throw)
next
  case (Suc n)
  show ?case unfolding keeps_def
  proof
    fix s
    show "rt_grows s (snd (require (Suc n) mods mid s))"
    proof (cases "installed s mid")
      case (Some m)
      then show ?thesis using rt_grows_refl by (simp add: get_value_state reflpD)
    next
      case None
      have "rt_grows s (miss_state mid s)" using None by (rule rt_grows_miss)
      with require_miss_grows[OF assms None Suc.IH] show ?thesis using rt_grows_trans by (blast dest: transpD)
    qed
  qed
qed

subsection \<open>Cache hits, memoisation and unknown ids\<close>

lemma put_value_installed: "installed (snd (put_value b k v s)) = installed s"
  by (simp add: put_value_def ret_def throw_def upd_obj_def split: jsval.splits option.splits)

lemma put_sloppy_installed: "installed (snd (put_value_sloppy b k v s)) = installed s"
  by (simp add: put_value_sloppy_def ret_def throw_def upd_obj_def split: jsval.splits option.splits)

text \<open>After line 23 \<open>loaded\<close> holds the value written, unless the write was ignored.\<close>

lemma loaded_after_sloppy:
  assumes "put_value_sloppy (JObj a) ''loaded'' v s = (Inr u, s')"
  shows "get_value (JObj a) ''loaded'' s' = (Inr v, s') \<or> \<not> loaded_writable a s'"
  using assms
  by (auto simp: put_value_sloppy_def get_value_def obj_at_def upd_obj_def ret_def throw_def set_own_def
      get_own_def list_get_def update_conv' data_prop_def loaded_writable_def split: option.splits if_splits)

lemma get_after_put:
  assumes "put_value (JObj a) k v s = (Inr u, s')"
  shows "get_value (JObj a) k s' = (Inr v, s')"
  using assms
  by (auto simp: put_value_def get_value_def obj_at_def upd_obj_def ret_def throw_def set_own_def
      get_own_def list_get_def update_conv' data_prop_def split: option.splits if_splits)

lemma require_hit:
  assumes "installed s mid = Some m"
  shows "require (Suc n) mods mid s = get_value (JObj m) ''exports'' s"
  using assms by simp

lemma require_cached_result:
  assumes "installed s' mid = Some m" "get_value (JObj m) ''exports'' s' = (Inr v, s')"
  shows "require (Suc k) mods' mid s' = (Inr v, s')"
  using assms by simp

lemma require_miss_Inr:
  assumes ok: "list_all module_ok mods" and None: "installed s mid = None"
    and r: "require (Suc n) mods mid s = (Inr v, s')"
  obtains f x s4 u where "list_get mods mid = Some f"
    and "f (require n mods) (Suc (length (heap s))) (JObj (length (heap s))) (miss_state mid s) = (Inr x, s4)"
    and "installed s4 mid = Some (Suc (length (heap s)))"
    and "put_value_sloppy (JObj (Suc (length (heap s)))) ''loaded'' (JBool True) s4 = (Inr u, s')"
    and "get_value (JObj (Suc (length (heap s)))) ''exports'' s' = (Inr v, s')"
proof -
  define M where "M = Suc (length (heap s))"
  define s1 where "s1 = miss_state mid s"
  have i1: "installed s1 mid = Some M" by (simp add: s1_def M_def miss_state_def)
  obtain f where f: "list_get mods mid = Some f"
    using r None by (cases "list_get mods mid") (simp_all add: require_miss del: require.simps)
  have fok: "module_ok f" using ok f by (auto simp: list_all_iff list_get_Some_iff)
  have body: "keeps rt_grows (f (require n mods) M (JObj (length (heap s))))"
    using fok require_keeps[OF ok] by (simp add: module_ok_def)
  have r': "bind_exc (f (require n mods) M (JObj (length (heap s)))) (\<lambda>_.
          bind_exc (put_value_sloppy (JObj M) ''loaded'' (JBool True)) (\<lambda>_.
          get_value (JObj M) ''exports'')) s1 = (Inr v, s')"
    using r f by (simp add: require_miss[OF None] s1_def M_def del: require.simps)
  then obtain x s4 where b4: "f (require n mods) M (JObj (length (heap s))) s1 = (Inr x, s4)"
    and r4: "bind_exc (put_value_sloppy (JObj M) ''loaded'' (JBool True)) (\<lambda>_.
          get_value (JObj M) ''exports'') s4 = (Inr v, s')"
    by (cases rule: bind_exc_cases) auto
  from r4 obtain u s5 where p5: "put_value_sloppy (JObj M) ''loaded'' (JBool True) s4 = (Inr u, s5)"
    and g5: "get_value (JObj M) ''exports'' s5 = (Inr v, s')"
    by (cases rule: bind_exc_cases) auto
  have "s' = s5" using g5 get_value_state[of "JObj M" "''exports''" s5] by simp
  have "rt_grows s1 s4" using body b4 unfolding keeps_def by (metis snd_conv)
  then have "installed s4 mid = Some M"
    using i1 by (metis domI map_le_def rt_grows_def)
  then show ?thesis using that f b4 p5 g5 \<open>s' = s5\<close> by (simp add: M_def s1_def)
qed

lemma require_success_cached:
  assumes ok: "list_all module_ok mods" and r: "require (Suc n) mods mid s = (Inr v, s')"
  shows "\<exists>m. installed s' mid = Some m \<and> get_value (JObj m) ''exports'' s' = (Inr v, s')"
proof (cases "installed s mid")
  case (Some m)
  have "snd (get_value (JObj m) ''exports'' s) = s" by (rule get_value_state)
  then show ?thesis using Some r by (metis prod.collapse require_hit snd_conv)
next
  case None
  from ok None r show ?thesis
  proof (rule require_miss_Inr)
    fix f x s4 u
    assume "installed s4 mid = Some (Suc (length (heap s)))"
      and "put_value_sloppy (JObj (Suc (length (heap s)))) ''loaded'' (JBool True) s4 = (Inr u, s')"
      and "get_value (JObj (Suc (length (heap s)))) ''exports'' s' = (Inr v, s')"
    then show ?thesis
      using put_sloppy_installed[of "JObj (Suc (length (heap s)))" "''loaded''" "JBool True" s4]
      by (metis snd_conv)
  qed
qed

text \<open>C1: once a require of a module id has returned a value, every later require of that id returns the same value and leaves the state as it is, whatever the registry and the depth; the module function does not run a second time.\<close>

theorem require_memoised:
  assumes "list_all module_ok mods" "require (Suc n) mods mid s = (Inr v, s')"
  shows "require (Suc k) mods' mid s' = (Inr v, s')"
  using require_success_cached[OF assms] require_cached_result by blast

text \<open>C2: requiring an id that is neither cached nor in the registry throws TypeError, but the module object is created and cached first, so the failed call leaves the cache changed and a second require of the id returns the empty exports object.\<close>

theorem require_unknown:
  assumes "installed s mid = None" "length mods \<le> mid"
  shows "require (Suc n) mods mid s = (Inl TypeError, miss_state mid s)
    \<and> require (Suc k) mods' mid (miss_state mid s) = (Inr (JObj (length (heap s))), miss_state mid s)"
proof
  show "require (Suc n) mods mid s = (Inl TypeError, miss_state mid s)"
    using assms by (simp add: require_miss list_get_None_iff[THEN iffD2] del: require.simps)
  have "installed (miss_state mid s) mid = Some (Suc (length (heap s)))"
    by (simp add: miss_state_def)
  then show "require (Suc k) mods' mid (miss_state mid s) = (Inr (JObj (length (heap s))), miss_state mid s)"
    by (simp add: get_exports_miss)
qed

text \<open>C6: a require of a cached id reads module.exports and nothing else: its result does not depend on the registry or on the remaining depth, and the state is unchanged.\<close>

theorem require_hit_ignores_registry:
  assumes "installed s mid = Some m"
  shows "require (Suc n) mods mid s = require (Suc k) mods' mid s \<and> snd (require (Suc n) mods mid s) = s"
  using assms by (simp add: get_value_state)

text \<open>C5: when every module function keeps the Loader's interface, a require never removes or replaces a cache entry and never shrinks the heap, whether it completes or throws.\<close>

theorem require_never_evicts:
  assumes "list_all module_ok mods" "installed s i = Some m"
  shows "installed (snd (require n mods mid s)) i = Some m \<and> length (heap s) \<le> length (heap (snd (require n mods mid s)))"
  using require_keeps[OF assms(1), of n mid] assms(2)
  unfolding keeps_def rt_grows_def by (metis domI map_le_def)

text \<open>C4: a successful first require of an id caches the module object it allocated (the second new object on the heap) and leaves that object's loaded property true, unless the module function made it read-only, in which case the non-strict write of line 23 is silently ignored.\<close>

theorem require_sets_loaded:
  assumes "list_all module_ok mods" "installed s mid = None" "require (Suc n) mods mid s = (Inr v, s')"
  shows "installed s' mid = Some (Suc (length (heap s))) \<and>
    (get_value (JObj (Suc (length (heap s)))) ''loaded'' s' = (Inr (JBool True), s') \<or>
     \<not> loaded_writable (Suc (length (heap s))) s')"
  using assms(1,2,3)
proof (rule require_miss_Inr)
  fix f x s4 u
  assume i: "installed s4 mid = Some (Suc (length (heap s)))"
    and p: "put_value_sloppy (JObj (Suc (length (heap s)))) ''loaded'' (JBool True) s4 = (Inr u, s')"
  have "installed s' = installed s4"
    using put_sloppy_installed[of "JObj (Suc (length (heap s)))" "''loaded''" "JBool True" s4] p by simp
  then show ?thesis using i loaded_after_sloppy[OF p] by simp
qed

text \<open>C7: when a module function throws (any error, stack overflow included), the exception propagates but the module object stays cached under its id; every later require of the id is a cache hit that returns the partial exports without running the module again.\<close>

theorem require_throw_leaves_entry:
  assumes "list_all module_ok mods" "installed s mid = None" "require (Suc n) mods mid s = (Inl e, s')"
  shows "installed s' mid = Some (Suc (length (heap s))) \<and>
    require (Suc k) mods' mid s' = get_value (JObj (Suc (length (heap s)))) ''exports'' s'"
proof -
  have "rt_grows (miss_state mid s) s'"
    using require_miss_grows[OF assms(1,2) require_keeps[OF assms(1)], of n] assms(3)
    by (simp del: require.simps)
  moreover have "installed (miss_state mid s) mid = Some (Suc (length (heap s)))"
    by (simp add: miss_state_def)
  ultimately have "installed s' mid = Some (Suc (length (heap s)))"
    by (metis domI map_le_def rt_grows_def)
  then show ?thesis by simp
qed

subsection \<open>Progress\<close>

lemma get_value_obj: "\<exists>v. get_value (JObj a) k s = (Inr v, s)"
  by (simp add: get_value_def ret_def split: option.split)

lemma put_loaded:
  "m < length (heap s) \<Longrightarrow> \<exists>s'. put_value_sloppy (JObj m) k v s = (Inr (), s')"
  by (simp add: put_value_sloppy_def obj_at_def list_get_def ret_def split: option.splits)

lemma miss_state_live:
  "obj_at (length (heap s)) (miss_state mid s) = Some empty_obj \<and>
   Suc (length (heap s)) < length (heap (miss_state mid s))"
  by (simp add: miss_state_def obj_at_def list_get_def nth_append)

lemma require_miss_completes:
  assumes "installed s mid = None" "list_get mods mid = Some f"
    and "f (require n mods) (Suc (length (heap s))) (JObj (length (heap s))) (miss_state mid s) = (Inr (), s4)"
    and "Suc (length (heap s)) < length (heap s4)"
  shows "\<exists>v s'. require (Suc n) mods mid s = (Inr v, s')"
proof -
  obtain s5 where p5: "put_value_sloppy (JObj (Suc (length (heap s)))) ''loaded'' (JBool True) s4 = (Inr (), s5)"
    using put_loaded[OF assms(4)] by blast
  obtain v where g5: "get_value (JObj (Suc (length (heap s)))) ''exports'' s5 = (Inr v, s5)"
    using get_value_obj by blast
  show ?thesis using assms(2,3) p5 g5 by (simp add: require_miss[OF assms(1)] del: require.simps)
qed

text \<open>C8: progress of require: at every depth of at least one and from every state, a require returns normally when its id is cached, or when its module function is registered and live; neither the cache nor the heap needs any property for it.\<close>

theorem require_progress:
  assumes "installed s mid \<noteq> None \<or> (list_get mods mid = Some f \<and> module_live f)"
  shows "\<exists>v s'. require (Suc n) mods mid s = (Inr v, s')"
proof (cases "installed s mid")
  case (Some m)
  then show ?thesis using get_value_obj[of m "''exports''" s] by auto
next
  case None
  have f: "list_get mods mid = Some f" "module_live f" using assms None by simp_all
  then obtain s4 where "f (require n mods) (Suc (length (heap s))) (JObj (length (heap s))) (miss_state mid s) = (Inr (), s4)"
    "Suc (length (heap s)) < length (heap s4)"
    using miss_state_live[of s mid] unfolding module_live_def by blast
  then show ?thesis by (rule require_miss_completes[OF None f(1)])
qed

text \<open>C9: progress along an acyclic request graph: when every module function completes as long as its requires of its dependencies do, and every dependency has a smaller rank, a require of a registered id completes at every depth greater than its rank, from every state.\<close>

theorem require_graph_progress:
  assumes ok: "list_all module_ok mods"
    and needs: "\<forall>i<length mods. module_needs (deps i) (mods ! i)"
    and ranked: "\<forall>i<length mods. \<forall>j\<in>deps i. j < length mods \<and> rank j < rank i"
  shows "i < length mods \<Longrightarrow> rank i < n \<Longrightarrow> \<exists>v s'. require n mods i s = (Inr v, s')"
proof (induction n arbitrary: i s)
  case 0
  then show ?case by simp
next
  case (Suc n)
  show ?case
  proof (cases "installed s i")
    case (Some m)
    then show ?thesis using get_value_obj[of m "''exports''" s] by auto
  next
    case None
    have f: "list_get mods i = Some (mods ! i)" using Suc.prems(1) by (simp add: list_get_Some_iff)
    have "req_ok (deps i) (require n mods)"
      unfolding req_ok_def
    proof
      show "\<forall>j. keeps rt_grows (require n mods j)" using require_keeps[OF ok] by blast
      show "\<forall>j\<in>deps i. \<forall>t. \<exists>v t'. require n mods j t = (Inr v, t')"
      proof (intro ballI allI)
        fix j t
        assume "j \<in> deps i"
        then have "j < length mods \<and> rank j < rank i" using ranked Suc.prems(1) by blast
        then have "j < length mods" "rank j < n" using Suc.prems(2) by auto
        then show "\<exists>v t'. require n mods j t = (Inr v, t')" by (rule Suc.IH)
      qed
    qed
    moreover have "module_needs (deps i) (mods ! i)" using needs Suc.prems(1) by blast
    ultimately obtain s4 where
      "(mods ! i) (require n mods) (Suc (length (heap s))) (JObj (length (heap s))) (miss_state i s) = (Inr (), s4)"
      "Suc (length (heap s)) < length (heap s4)"
      using miss_state_live[of s i] unfolding module_needs_def by blast
    then show ?thesis by (rule require_miss_completes[OF None f])
  qed
qed

end
