(* ===== verification/JsConvert.thy ===== *)
theory JsConvert
  imports JsObject
begin

text \<open>
  The type conversions of ECMAScript 2015 that the bundle's expressions
  perform: ToBoolean for \<open>obj && obj.__esModule\<close> (line 53), ToNumber for
  the operands of \<open>*\<close> (lines 78 and 81), ToString and the \<open>+\<close> operator
  for the string of line 59, and the strict equality \<open>obj != null\<close> uses
  (line 53). Strings are Isabelle strings of 8-bit characters; ToNumber of
  an object is NaN, which is what ToPrimitive yields for the bundle's
  objects (none has an own \<open>valueOf\<close> or \<open>toString\<close>).
\<close>

subsection \<open>ToBoolean (7.1.2)\<close>

fun to_boolean :: "jsval \<Rightarrow> bool" where
  "to_boolean JUndef = False"
| "to_boolean JNull = False"
| "to_boolean (JBool b) = b"
| "to_boolean (JNum x) = (\<not> is_zero x \<and> \<not> is_nan x)"
| "to_boolean (JStr str) = (str \<noteq> [])"
| "to_boolean (JObj a) = True"

subsection \<open>ToNumber (7.1.3)\<close>

definition is_ws :: "char \<Rightarrow> bool" where
  "is_ws c \<longleftrightarrow> of_char c \<in> {9, 10, 11, 12, 13, 32, 160 :: nat}"

definition trim_ws :: "string \<Rightarrow> string" where
  "trim_ws str = rev (dropWhile is_ws (rev (dropWhile is_ws str)))"

definition is_digit :: "char \<Rightarrow> bool" where
  "is_digit c \<longleftrightarrow> digit_of c \<noteq> None"

text \<open>The value of a digit in base 2, 8 or 16, if the character is one.\<close>

definition radix_digit :: "nat \<Rightarrow> char \<Rightarrow> nat option" where
  "radix_digit b c =
     (let n = of_char c :: nat;
          d = (if 48 \<le> n \<and> n \<le> 57 then Some (n - 48)
               else if 97 \<le> n \<and> n \<le> 102 then Some (n - 87)
               else if 65 \<le> n \<and> n \<le> 70 then Some (n - 55) else None)
      in case d of Some v \<Rightarrow> if v < b then Some v else None | None \<Rightarrow> None)"

fun radix_val :: "nat \<Rightarrow> nat \<Rightarrow> string \<Rightarrow> nat option" where
  "radix_val b acc [] = Some acc"
| "radix_val b acc (c # cs) =
     (case radix_digit b c of None \<Rightarrow> None | Some d \<Rightarrow> radix_val b (b * acc + d) cs)"

text \<open>The exponent part of a StrDecimalLiteral: empty, or \<open>e\<close>/\<open>E\<close>, a sign, digits.\<close>

definition parse_exp :: "string \<Rightarrow> int option" where
  "parse_exp r =
     (case r of
        [] \<Rightarrow> Some 0
      | c # t \<Rightarrow>
          if c = CHR ''e'' \<or> c = CHR ''E'' then
            (let (neg, ds) = (case t of
                                CHR ''+'' # u \<Rightarrow> (False, u)
                              | CHR ''-'' # u \<Rightarrow> (True, u)
                              | _ \<Rightarrow> (False, t))
             in if ds = [] then None
                else map_option (\<lambda>v. if neg then - int v else int v) (digits_val 0 ds))
          else None)"

text \<open>
  An unsigned StrUnsignedDecimalLiteral without \<open>Infinity\<close>: digits, an
  optional point and fraction digits (one of the two digit runs non-empty), an
  optional exponent; the result is \<open>(digits, exponent)\<close>.
\<close>

definition parse_decimal :: "string \<Rightarrow> (nat \<times> int) option" where
  "parse_decimal str =
     (let (ip, r1) = (takeWhile is_digit str, dropWhile is_digit str);
          (fp, r2) = (case r1 of
                        c # r \<Rightarrow> if c = CHR ''.'' then (takeWhile is_digit r, dropWhile is_digit r) else ([], r1)
                      | [] \<Rightarrow> ([], []))
      in if ip = [] \<and> fp = [] then None
         else case parse_exp r2 of
                None \<Rightarrow> None
              | Some e \<Rightarrow> map_option (\<lambda>m. (m, e - int (length fp))) (digits_val 0 (ip @ fp)))"

text \<open>
  StringToNumber (7.1.3.1): white space trimmed, the empty string is \<open>+0\<close>,
  then \<open>Infinity\<close> with a sign, a binary, octal or hexadecimal integer, or a
  signed decimal literal; anything else is NaN. The bundle itself calls
  \<open>area\<close> and \<open>circumference\<close> only on numbers; this case is the semantics
  of the exported functions on a string argument.
\<close>

definition str_to_number :: "string \<Rightarrow> float64" where
  "str_to_number str0 =
     (let str = trim_ws str0 in
      if str = [] then f_make False 0 0
      else if str = ''Infinity'' \<or> str = ''+Infinity'' then f_make False 2047 0
      else if str = ''-Infinity'' then f_make True 2047 0
      else case str of
        c0 # c1 # ds \<Rightarrow>
          if c0 = CHR ''0'' \<and> c1 \<in> {CHR ''x'', CHR ''X'', CHR ''b'', CHR ''B'', CHR ''o'', CHR ''O''} then
            (let b = (if c1 \<in> {CHR ''x'', CHR ''X''} then 16 else if c1 \<in> {CHR ''b'', CHR ''B''} then 2 else 8)
             in if ds = [] then js_nan
                else case radix_val b 0 ds of None \<Rightarrow> js_nan | Some n \<Rightarrow> round_div False n 1)
          else (let (neg, u) = (if c0 = CHR ''-'' then (True, c1 # ds)
                                else if c0 = CHR ''+'' then (False, c1 # ds) else (False, str))
                in case parse_decimal u of None \<Rightarrow> js_nan | Some (m, e) \<Rightarrow> dec_round neg m e)
      | _ \<Rightarrow> (case parse_decimal str of None \<Rightarrow> js_nan | Some (m, e) \<Rightarrow> dec_round False m e))"

fun to_number :: "jsval \<Rightarrow> float64" where
  "to_number JUndef = js_nan"
| "to_number JNull = f_make False 0 0"
| "to_number (JBool b) = (if b then dec_lit 1 0 else f_make False 0 0)"
| "to_number (JNum x) = x"
| "to_number (JStr str) = str_to_number str"
| "to_number (JObj a) = js_nan"

subsection \<open>Number::toString (7.1.12.1)\<close>

text \<open>
  \<open>pow10_le n d p\<close> decides \<open>10^p \<le> n / d\<close>; \<open>ilog10q n d\<close> is
  \<open>\<lfloor>log10 (n / d)\<rfloor>\<close>, from the decimal digit counts of \<open>n\<close> and \<open>d\<close> and
  one comparison.
\<close>

definition pow10_le :: "nat \<Rightarrow> nat \<Rightarrow> int \<Rightarrow> bool" where
  "pow10_le n d p \<longleftrightarrow> (if 0 \<le> p then d * 10 ^ nat p \<le> n else d \<le> n * 10 ^ nat (- p))"

definition ilog10q :: "nat \<Rightarrow> nat \<Rightarrow> int" where
  "ilog10q n d =
     (let p = int (floorlog 10 n) - int (floorlog 10 d) in if pow10_le n d p then p else p - 1)"

text \<open>A positive finite value as a fraction \<open>N / D\<close>.\<close>

definition ratio_of :: "float64 \<Rightarrow> nat \<times> nat" where
  "ratio_of x =
     (if 0 \<le> f_qexp x then (f_signif x * 2 ^ nat (f_qexp x), 1) else (f_signif x, 2 ^ nat (- f_qexp x)))"

text \<open>
  The \<open>k\<close>-digit candidates for \<open>x = N / D\<close> with \<open>10^(n0-1) \<le> x < 10^n0\<close>:
  the integers \<open>s\<close> with \<open>s * 10^(n0-k)\<close> just below and just above \<open>x\<close>
  (the one above may carry into the next decade, giving \<open>n = n0 + 1\<close>). A
  candidate is valid when \<open>s * 10^(n-k)\<close> rounds to \<open>x\<close>; of two valid ones
  the closer to \<open>x\<close> is taken, on a tie the even one. With \<open>force\<close> the
  nearer candidate is returned even if neither is valid.
\<close>

definition digits_at :: "bool \<Rightarrow> float64 \<Rightarrow> nat \<Rightarrow> nat \<Rightarrow> int \<Rightarrow> nat \<Rightarrow> (nat \<times> int) option" where
  "digits_at force x N D n0 k =
     (let e = n0 - int k;
          A = (if 0 \<le> e then N else N * 10 ^ nat (- e));
          B = (if 0 \<le> e then D * 10 ^ nat e else D);
          lo = A div B; r = A mod B;
          (hi, nhi) = (if Suc lo = 10 ^ k then (10 ^ (k - 1), n0 + 1) else (Suc lo, n0));
          lo_ok = (dec_lit lo e = x);
          hi_ok = (dec_lit hi (nhi - int k) = x);
          lo_first = (r < B - r \<or> (r = B - r \<and> even lo))
      in if lo_ok \<and> (\<not> hi_ok \<or> lo_first) then Some (lo, n0)
         else if hi_ok then Some (hi, nhi)
         else if force then Some (if lo_first then (lo, n0) else (hi, nhi))
         else None)"

text \<open>
  The least \<open>k\<close> from \<open>k\<close> up with a valid candidate, trying at most
  \<open>fuel\<close> lengths; the last length tried is forced. From \<open>k = 1\<close> with 17
  lengths the forced case is never the one taken, since 17 significant digits
  determine every binary64 value.
\<close>

fun find_digits :: "nat \<Rightarrow> float64 \<Rightarrow> nat \<Rightarrow> nat \<Rightarrow> int \<Rightarrow> nat \<Rightarrow> (nat \<times> nat \<times> int) option" where
  "find_digits 0 x N D n0 k = None"
| "find_digits (Suc fuel) x N D n0 k =
     (case digits_at (fuel = 0) x N D n0 k of
        Some (s, n) \<Rightarrow> Some (k, s, n)
      | None \<Rightarrow> find_digits fuel x N D n0 (Suc k))"

text \<open>Steps 6--10 of Number::toString: the layout of the digits \<open>s\<close> of length \<open>k\<close>.\<close>

definition format_digits :: "nat \<Rightarrow> nat \<Rightarrow> int \<Rightarrow> string" where
  "format_digits k s n =
     (let ds = show_nat s;
          ex = n - 1;
          exs = (if 0 \<le> ex then CHR ''+'' else CHR ''-'') # show_nat (nat \<bar>ex\<bar>)
      in if int k \<le> n \<and> n \<le> 21 then ds @ replicate (nat n - k) (CHR ''0'')
         else if 0 < n \<and> n \<le> 21 then take (nat n) ds @ CHR ''.'' # drop (nat n) ds
         else if -6 < n \<and> n \<le> 0 then CHR ''0'' # CHR ''.'' # replicate (nat (- n)) (CHR ''0'') @ ds
         else if k = 1 then ds @ CHR ''e'' # exs
         else take 1 ds @ CHR ''.'' # drop 1 ds @ CHR ''e'' # exs)"

definition number_to_string :: "float64 \<Rightarrow> string" where
  "number_to_string x =
     (if is_nan x then ''NaN''
      else if is_zero x then ''0''
      else
        let sgn = (if f_sign x then ''-'' else []) in
        if is_inf x then sgn @ ''Infinity''
        else
          let xp = f_make False (f_exp x) (f_frac x); (N, D) = ratio_of x; n0 = ilog10q N D + 1 in
          case find_digits 17 xp N D n0 1 of
            Some (k, s, n) \<Rightarrow> sgn @ format_digits k s n
          | None \<Rightarrow> sgn)"

subsection \<open>ToPrimitive, ToString and the addition operator\<close>

text \<open>
  ToPrimitive of an object with the default hint (7.1.1): \<open>valueOf\<close> of
  Object.prototype returns the object itself, so \<open>toString\<close> decides:
  \<open>"[object Object]"\<close> for an ordinary object, the source text for a
  function.
\<close>

definition to_primitive :: "jsval \<Rightarrow> 'x js_state_scheme \<Rightarrow> jsval" where
  "to_primitive v s =
     (case v of
        JObj a \<Rightarrow>
          (case obj_at a s of
             Some ob \<Rightarrow> JStr (case call ob of Some f \<Rightarrow> fun_source f | None \<Rightarrow> ''[object Object]'')
           | None \<Rightarrow> JStr ''[object Object]'')
      | _ \<Rightarrow> v)"

fun prim_to_string :: "jsval \<Rightarrow> string" where
  "prim_to_string JUndef = ''undefined''"
| "prim_to_string JNull = ''null''"
| "prim_to_string (JBool b) = (if b then ''true'' else ''false'')"
| "prim_to_string (JNum x) = number_to_string x"
| "prim_to_string (JStr str) = str"
| "prim_to_string (JObj a) = ''[object Object]''"

fun is_string :: "jsval \<Rightarrow> bool" where
  "is_string (JStr str) = True"
| "is_string _ = False"

text \<open>
  \<open>a + b\<close> (12.7.3.1): both operands to primitives; if either is a string
  the two strings are concatenated, otherwise the numbers are added.
\<close>

definition js_add :: "jsval \<Rightarrow> jsval \<Rightarrow> 'x js_state_scheme \<Rightarrow> jsval" where
  "js_add a b s =
     (let pa = to_primitive a s; pb = to_primitive b s in
      if is_string pa \<or> is_string pb then JStr (prim_to_string pa @ prim_to_string pb)
      else JNum (fadd (to_number pa) (to_number pb)))"

text \<open>\<open>v != null\<close> (abstract equality, 7.2.12): only \<open>undefined\<close> and \<open>null\<close> equal \<open>null\<close>.\<close>

fun loose_eq_null :: "jsval \<Rightarrow> bool" where
  "loose_eq_null JUndef = True"
| "loose_eq_null JNull = True"
| "loose_eq_null _ = False"

subsection \<open>Evaluation\<close>

lemma find_digits_numeral:
  "find_digits (numeral w) x N D n0 k =
     (case digits_at (pred_numeral w = 0) x N D n0 k of
        Some (s, n) \<Rightarrow> Some (k, s, n)
      | None \<Rightarrow> find_digits (pred_numeral w) x N D n0 (Suc k))"
  by (simp add: numeral_eq_Suc)

text \<open>For a positive finite non-zero value the sign and the special cases drop out.\<close>

lemma number_to_string_pos:
  assumes "\<not> f_sign x" "is_finite x" "\<not> is_zero x"
  shows "number_to_string x =
    (case find_digits 17 x (fst (ratio_of x)) (snd (ratio_of x))
            (ilog10q (fst (ratio_of x)) (snd (ratio_of x)) + 1) 1 of
       Some (k, s, n) \<Rightarrow> format_digits k s n | None \<Rightarrow> [])"
proof -
  have "f_make False (f_exp x) (f_frac x) = x" using assms(1) f_make_fields[of x] by simp
  then show ?thesis
    using assms by (simp add: number_to_string_def is_finite_def is_nan_def is_inf_def
        split: prod.splits option.splits)
qed

lemmas to_string_eval = number_to_string_pos ratio_of_def ilog10q_def pow10_le_def compute_floorlog
  find_digits_numeral digits_at_def format_digits_def digit_char_def float_eval

end
