(* ===== verification/Rounding.thy ===== *)
theory Rounding
  imports Float64
begin

text \<open>
  The rounding of Float64 against its specification. \<open>nearest_float x r\<close>
  is what ECMAScript asks of every arithmetic result and numeric literal
  (ECMAScript 2015, 6.1.6, "round to nearest, ties to even"): \<open>r\<close> is a finite
  number and no finite number is closer to the exact value \<open>x\<close>. The theory
  proves that the executable \<open>round_div\<close> meets it whenever its result is
  finite, that it is finite whenever the exact value is below the overflow
  threshold \<open>f_threshold\<close>, and therefore that the \<open>*\<close> operator (\<open>fmul\<close>)
  and decimal literals (\<open>dec_lit\<close>) round correctly below the threshold;
  and that a quotient of at least \<open>2^1024\<close>, or a
  product of finite numbers of that size, rounds to an infinity.

  The argument: with the quantum \<open>2^q\<close> of \<open>round_div\<close>, the significand
  \<open>m\<close> is the integer nearest to \<open>(n/d)/2^q\<close> (\<open>rne_div_int_nearest\<close>);
  every finite number is either a multiple of \<open>2^q\<close> (\<open>f_val_grid\<close>) or
  smaller in magnitude than \<open>2^(q+52)\<close>, itself a multiple of \<open>2^q\<close>
  no larger than \<open>n/d\<close>, so nothing beats \<open>m * 2^q\<close>.
\<close>

subsection \<open>The specification\<close>

definition nearest_float :: "rat \<Rightarrow> float64 \<Rightarrow> bool" where
  "nearest_float x r \<longleftrightarrow> is_finite r \<and> (\<forall>y. is_finite y \<longrightarrow> \<bar>f_val r - x\<bar> \<le> \<bar>f_val y - x\<bar>)"

text \<open>
  The overflow threshold of round to nearest (IEEE 754, and \<open>threshold\<close> of the
  AFP theory IEEE): halfway between the largest finite number
  \<open>(2 - 2^-52) * 2^1023\<close> and \<open>2^1024\<close>. An exact value below it in magnitude
  rounds to a finite number.
\<close>

definition f_threshold :: rat where
  "f_threshold = 2 powi 1024 - 2 powi 970"

text \<open>
  \<open>(n/d)/2^q\<close> as a quotient of naturals, the pair \<open>round_div\<close> hands to
  \<open>rne_div\<close>.
\<close>

definition scaled_num :: "nat \<Rightarrow> int \<Rightarrow> nat" where
  "scaled_num n q = (if q \<le> 0 then n * 2 ^ nat (- q) else n)"

definition scaled_den :: "nat \<Rightarrow> int \<Rightarrow> nat" where
  "scaled_den d q = (if q \<le> 0 then d else d * 2 ^ nat q)"

subsection \<open>Rounding to the nearest integer\<close>

lemma rne_div_int_nearest:
  assumes "0 < b"
  shows "\<bar>int b * int (rne_div a b) - int a\<bar> \<le> \<bar>int b * k - int a\<bar>"
proof -
  define m0 where "m0 = a div b"
  define r where "r = a mod b"
  have a: "int a = int b * int m0 + int r" unfolding m0_def r_def by (simp flip: of_nat_mult of_nat_add)
  have r: "int r < int b" using assms by (simp add: r_def)
  have lo: "\<bar>int b * k - int a\<bar> \<ge> int r" if "k \<le> int m0"
  proof -
    have "int b * k \<le> int b * int m0" using that by (simp add: mult_left_mono)
    then show ?thesis using a by linarith
  qed
  have hi: "\<bar>int b * k - int a\<bar> \<ge> int b - int r" if "k \<ge> int m0 + 1"
  proof -
    have "int b * k \<ge> int b * (int m0 + 1)" using that by (simp add: mult_left_mono)
    then show ?thesis using a by (simp add: algebra_simps)
  qed
  have k: "\<bar>int b * k - int a\<bar> \<ge> min (int r) (int b - int r)"
    using lo hi by (cases "k \<le> int m0") (auto simp: min_def)
  show ?thesis
  proof (cases "b < 2 * r \<or> (2 * r = b \<and> odd m0)")
    case True
    then have "rne_div a b = Suc m0" by (simp add: rne_div_def m0_def r_def Let_def)
    then have "\<bar>int b * int (rne_div a b) - int a\<bar> = int b - int r" using a r by (simp add: algebra_simps)
    then show ?thesis using k True by (auto simp: min_def)
  next
    case False
    then have "rne_div a b = m0" by (simp add: rne_div_def m0_def r_def Let_def)
    then have "\<bar>int b * int (rne_div a b) - int a\<bar> = int r" using a by simp
    then show ?thesis using k False by (auto simp: min_def)
  qed
qed

lemma rne_div_ge_div: "a div b \<le> rne_div a b"
  by (simp add: rne_div_def Let_def)

lemma rne_div_lower: "0 < b \<Longrightarrow> lo * b \<le> a \<Longrightarrow> lo \<le> rne_div a b"
  using rne_div_ge_div[of a b] less_eq_div_iff_mult_less_eq[of b lo a] by simp

lemma rne_div_upper: "0 < b \<Longrightarrow> a < hi * b \<Longrightarrow> rne_div a b \<le> hi"
proof -
  assume b: "0 < b" and a: "a < hi * b"
  then have "a div b < hi" by (simp add: div_less_iff_less_mult)
  then show ?thesis by (simp add: rne_div_def Let_def)
qed

subsection \<open>The grid of finite numbers\<close>

lemma f_val_grid:
  assumes "q \<le> f_qexp y"
  shows "\<exists>k::int. f_val y = of_int k * 2 powi q"
proof -
  have "(2::rat) powi f_qexp y = 2 ^ nat (f_qexp y - q) * 2 powi q"
    using assms by (simp add: power_int_add[symmetric] flip: power_int_of_nat)
  then show ?thesis
    by (intro exI[of _ "(if f_sign y then -1 else 1) * int (f_signif y) * 2 ^ nat (f_qexp y - q)"])
       (simp add: f_val_def)
qed

lemma f_signif_lt: "f_signif y < 2 ^ 53"
  using f_frac_lt[of y] by (simp add: f_signif_def)

lemma f_qexp_ge: "-1074 \<le> f_qexp y"
  by (simp add: f_qexp_def)

lemma f_val_abs_lt: "\<bar>f_val y\<bar> < 2 powi (f_qexp y + 53)"
proof -
  have "\<bar>f_val y\<bar> = of_nat (f_signif y) * 2 powi f_qexp y" by (simp add: f_val_def abs_mult)
  also have "\<dots> < 2 ^ 53 * 2 powi f_qexp y"
  proof (rule mult_strict_right_mono)
    show "rat_of_nat (f_signif y) < 2 ^ 53" using f_signif_lt[of y] by simp
  qed simp
  also have "\<dots> = 2 powi (f_qexp y + 53)" by (simp add: power_int_add)
  finally show ?thesis .
qed

subsection \<open>The scaled quotient and the significand\<close>

lemma pow2_le_rat:
  assumes "0 < d"
  shows "pow2_le n d p \<longleftrightarrow> (2::rat) powi p \<le> of_nat n / of_nat d"
proof (cases "0 \<le> p")
  case True
  have c: "(2::rat) ^ nat p * of_nat d = of_nat (d * 2 ^ nat p)" by simp
  have "(2::rat) powi p = 2 ^ nat p" using True by (simp add: power_int_def)
  then have "(2::rat) powi p \<le> of_nat n / of_nat d \<longleftrightarrow> of_nat (d * 2 ^ nat p) \<le> (of_nat n :: rat)"
    using assms by (simp only: le_divide_eq c) simp
  then show ?thesis using True by (simp only: of_nat_le_iff pow2_le_def if_True)
next
  case False
  have c: "(of_nat n :: rat) * 2 ^ nat (- p) = of_nat (n * 2 ^ nat (- p))" by simp
  have "(2::rat) powi p = 1 / 2 ^ nat (- p)" unfolding power_int_def using False by (simp add: inverse_eq_divide power_one_over)
  then have "(2::rat) powi p \<le> of_nat n / of_nat d \<longleftrightarrow> (of_nat d :: rat) \<le> of_nat (n * 2 ^ nat (- p))"
    using assms by (simp add: divide_le_eq le_divide_eq c[symmetric] mult.commute)
  then show ?thesis using False by (simp only: of_nat_le_iff pow2_le_def if_False)
qed

lemma scaled_ratio:
  "0 < d \<Longrightarrow> of_nat (scaled_num n q) / of_nat (scaled_den d q) = (of_nat n / of_nat d) / (2::rat) powi q"
  by (auto simp: scaled_num_def scaled_den_def power_int_def field_simps)

lemma scaled_den_pos: "0 < d \<Longrightarrow> 0 < scaled_den d q"
  by (simp add: scaled_den_def)

lemma pow2_le_scaled: "pow2_le (scaled_num n q) (scaled_den d q) p = pow2_le n d (p + q)"
proof (cases "q \<le> 0")
  case True
  have "pow2_le (n * 2 ^ nat (- q)) (d * 2 ^ 0) p = pow2_le n d (p - int (nat (- q)) + int 0)"
    by (rule pow2_le_pow2)
  then show ?thesis using True by (simp add: scaled_num_def scaled_den_def)
next
  case False
  have "pow2_le (n * 2 ^ 0) (d * 2 ^ nat q) p = pow2_le n d (p - int 0 + int (nat q))"
    by (rule pow2_le_pow2)
  then show ?thesis using False by (simp add: scaled_num_def scaled_den_def)
qed

lemma round_div_scaled:
  assumes "0 < n"
  shows "round_div s n d =
    (let q = quantum n d; m = rne_div (scaled_num n q) (scaled_den d q)
     in if m = 2 ^ 53 then encode_mq s (2 ^ 52) (q + 1) else encode_mq s m q)"
  using assms by (simp add: round_div_def scaled_num_def scaled_den_def Let_def)

lemma quantum_ge: "ilog2q n d - 52 \<le> quantum n d" "-1074 \<le> quantum n d"
  by (simp_all add: quantum_def)

lemma rne_scaled_upper:
  assumes "0 < n" "0 < d"
  shows "rne_div (scaled_num n (quantum n d)) (scaled_den d (quantum n d)) \<le> 2 ^ 53"
proof -
  define q where "q = quantum n d"
  have "\<not> pow2_le n d (ilog2q n d + 1)" using ilog2q_spec[OF assms] by simp
  then have "\<not> pow2_le n d (53 + q)" using quantum_ge(1)[of n d] pow2_le_mono q_def by fastforce
  then have "\<not> pow2_le (scaled_num n q) (scaled_den d q) 53" by (simp add: pow2_le_scaled)
  then have "scaled_num n q < 2 ^ 53 * scaled_den d q" by (simp add: pow2_le_def mult.commute)
  then show ?thesis using scaled_den_pos[OF assms(2)] q_def by (simp add: rne_div_upper)
qed

lemma rne_scaled_lower:
  assumes "0 < n" "0 < d" "-1074 < quantum n d"
  shows "2 ^ 52 \<le> rne_div (scaled_num n (quantum n d)) (scaled_den d (quantum n d))"
proof -
  define q where "q = quantum n d"
  have q: "q = ilog2q n d - 52" using assms(3) by (simp add: q_def quantum_def)
  have "pow2_le n d (52 + q)" using ilog2q_spec[OF assms(1,2)] q by simp
  then have "pow2_le (scaled_num n q) (scaled_den d q) 52" by (simp add: pow2_le_scaled)
  then have "2 ^ 52 * scaled_den d q \<le> scaled_num n q" by (simp add: pow2_le_def mult.commute)
  then show ?thesis using scaled_den_pos[OF assms(2)] q_def by (simp add: rne_div_lower)
qed

lemma f_val_f_make:
  assumes "e < 2048" "f < 2 ^ 52"
  shows "f_val (f_make s e f) =
    (if s then -1 else 1) * of_nat (if e = 0 then f else 2 ^ 52 + f) * 2 powi (if e = 0 then -1074 else int e - 1075)"
  using f_make_sel[OF assms, of s] by (cases "e = 0") (simp_all add: f_val_def f_signif_def f_qexp_def)

lemma f_val_encode:
  assumes "canonical m q" "m < 2 ^ 52 \<or> q + 1075 < 2047"
  shows "f_val (encode_mq s m q) = (if s then -1 else 1) * of_nat m * 2 powi q"
proof (cases "m < 2 ^ 52")
  case True
  then have "q = -1074" using assms(1) by (simp add: canonical_def)
  then show ?thesis using True f_val_f_make[of 0 m s] by (simp add: encode_mq_def)
next
  case False
  then have m: "2 ^ 52 \<le> m" "m < 2 ^ 53" "-1074 \<le> q" "q + 1075 < 2047" using assms by (auto simp: canonical_def)
  have "f_val (f_make s (nat (q + 1075)) (m - 2 ^ 52)) = (if s then -1 else 1) * of_nat m * 2 powi q"
    using f_val_f_make[of "nat (q + 1075)" "m - 2 ^ 52" s] m by simp
  then show ?thesis using m by (simp add: encode_mq_def)
qed

lemma finite_encode: "canonical m q \<Longrightarrow> is_finite (encode_mq s m q) \<Longrightarrow> m < 2 ^ 52 \<or> q + 1075 < 2047"
  using f_make_sel(2)[of 2047 0 s] by (auto simp: encode_mq_def is_finite_def canonical_def)

subsection \<open>\<open>round_div\<close> meets the specification\<close>

lemma round_div_value:
  assumes "0 < n" "0 < d" "is_finite (round_div s n d)"
  shows "f_val (round_div s n d) = (if s then -1 else 1) *
    of_nat (rne_div (scaled_num n (quantum n d)) (scaled_den d (quantum n d))) * 2 powi quantum n d"
proof -
  define q where "q = quantum n d"
  define m where "m = rne_div (scaled_num n q) (scaled_den d q)"
  have rd: "round_div s n d = (if m = 2 ^ 53 then encode_mq s (2 ^ 52) (q + 1) else encode_mq s m q)"
    using round_div_scaled[OF assms(1), of s d] by (simp add: m_def q_def Let_def)
  have up: "m \<le> 2 ^ 53" using rne_scaled_upper[OF assms(1,2)] by (simp add: m_def q_def)
  have qge: "-1074 \<le> q" using quantum_ge(2) by (simp add: q_def)
  show ?thesis
  proof (cases "m = 2 ^ 53")
    case True
    have c: "canonical (2 ^ 52) (q + 1)" using qge by (simp add: canonical_def)
    have "is_finite (encode_mq s (2 ^ 52) (q + 1))" using assms(3) rd True by simp
    then have "f_val (encode_mq s (2 ^ 52) (q + 1)) = (if s then -1 else 1) * of_nat (2 ^ 52) * 2 powi (q + 1)"
      using f_val_encode[OF c] finite_encode[OF c] by blast
    then show ?thesis using rd True by (simp add: power_int_add m_def q_def)
  next
    case False
    have c: "canonical m q"
    proof (cases "m < 2 ^ 52")
      case True
      have "\<not> -1074 < q" using True rne_scaled_lower[OF assms(1,2)] by (auto simp: m_def q_def)
      then show ?thesis using True qge by (simp add: canonical_def)
    next
      case False
      then show ?thesis using up \<open>m \<noteq> 2 ^ 53\<close> qge by (simp add: canonical_def)
    qed
    have "is_finite (encode_mq s m q)" using assms(3) rd False by simp
    then show ?thesis using f_val_encode[OF c] finite_encode[OF c] rd False by (simp add: m_def q_def)
  qed
qed

lemma nearest_scale:
  fixes A B m k c :: rat
  assumes "0 < B" "0 < c" "\<bar>B * m - A\<bar> \<le> \<bar>B * k - A\<bar>"
  shows "\<bar>m * c - A / B * c\<bar> \<le> \<bar>k * c - A / B * c\<bar>"
proof -
  have e: "\<bar>z * c - A / B * c\<bar> = c / B * \<bar>B * z - A\<bar>" for z
  proof -
    have "z * c - A / B * c = c / B * (B * z - A)" using assms(1) by (simp add: field_simps)
    moreover have "\<bar>c / B\<bar> = c / B" using assms(1,2) by simp
    ultimately show ?thesis by (simp only: abs_mult)
  qed
  have "0 \<le> c / B" using assms(1,2) by simp
  then show ?thesis unfolding e by (rule mult_left_mono[OF assms(3)])
qed

lemma rne_scaled_nearest:
  assumes "0 < d"
  shows "\<bar>of_nat (rne_div (scaled_num n q) (scaled_den d q)) * 2 powi q - of_nat n / of_nat d\<bar>
    \<le> \<bar>of_int k * 2 powi q - (of_nat n / of_nat d :: rat)\<bar>"
proof -
  define A where "A = scaled_num n q"
  define B where "B = scaled_den d q"
  have B: "0 < B" using scaled_den_pos[OF assms] by (simp add: B_def)
  have "\<bar>int B * int (rne_div A B) - int A\<bar> \<le> \<bar>int B * k - int A\<bar>" using rne_div_int_nearest[OF B] .
  then have "\<bar>of_int (int B * int (rne_div A B) - int A)\<bar> \<le> \<bar>(of_int (int B * k - int A) :: rat)\<bar>"
    by (simp only: of_int_abs[symmetric] of_int_le_iff)
  then have "\<bar>of_nat B * of_nat (rne_div A B) - of_nat A\<bar> \<le> \<bar>of_nat B * of_int k - (of_nat A :: rat)\<bar>" by simp
  from nearest_scale[OF _ _ this, of "2 powi q"] B
  have "\<bar>of_nat (rne_div A B) * 2 powi q - of_nat A / of_nat B * 2 powi q\<bar>
    \<le> \<bar>of_int k * 2 powi q - of_nat A / of_nat B * (2 powi q :: rat)\<bar>" by simp
  moreover have "of_nat A / of_nat B * (2 powi q :: rat) = of_nat n / of_nat d"
    using scaled_ratio[OF assms, of n q] by (simp add: A_def B_def)
  ultimately show ?thesis by (simp add: A_def B_def)
qed

theorem round_div_nearest:
  assumes "0 < d" "is_finite (round_div s n d)"
  shows "nearest_float ((if s then -1 else 1) * of_nat n / of_nat d) (round_div s n d)"
proof (cases "n = 0")
  case True
  have "f_val (round_div s n d) = 0" using True f_val_f_make[of 0 0 s] by (simp add: round_div_def)
  then show ?thesis using assms(2) True by (simp add: nearest_float_def)
next
  case False
  then have n: "0 < n" by simp
  define q where "q = quantum n d"
  define m where "m = rne_div (scaled_num n q) (scaled_den d q)"
  define x0 :: rat where "x0 = of_nat n / of_nat d"
  define sg :: rat where "sg = (if s then -1 else 1)"
  have sg: "\<bar>sg * a - sg * b\<bar> = \<bar>a - b\<bar>" "\<bar>v - sg * b\<bar> = \<bar>sg * v - b\<bar>" "\<bar>sg * v\<bar> = \<bar>v\<bar>" "sg * (sg * v) = v" for a b v
    by (auto simp: sg_def abs_minus_commute)
  have val: "f_val (round_div s n d) = sg * (of_nat m * 2 powi q)"
    using round_div_value[OF n assms(1,2)] by (simp add: sg_def m_def q_def)
  have near: "\<bar>of_nat m * 2 powi q - x0\<bar> \<le> \<bar>of_int k * 2 powi q - x0\<bar>" for k
    using rne_scaled_nearest[OF assms(1)] by (simp add: m_def x0_def)
  have e: "2 powi ilog2q n d \<le> x0"
    using ilog2q_spec(1)[OF n assms(1)] pow2_le_rat[OF assms(1)] by (simp add: x0_def)
  have "\<bar>of_nat m * 2 powi q - x0\<bar> \<le> \<bar>sg * f_val y - x0\<bar>" if y: "is_finite y" for y
  proof (cases "q \<le> f_qexp y")
    case True
    obtain k where k: "f_val y = of_int k * 2 powi q" using f_val_grid[OF True] by blast
    have "sg * f_val y = of_int ((if s then -1 else 1) * k) * 2 powi q" by (simp add: k sg_def)
    then show ?thesis using near[of "(if s then -1 else 1) * k"] by simp
  next
    case False
    then have q: "q = ilog2q n d - 52" using f_qexp_ge[of y] by (simp add: q_def quantum_def)
    have "\<bar>f_val y\<bar> < 2 powi (f_qexp y + 53)" by (rule f_val_abs_lt)
    also have "\<dots> \<le> 2 powi (q + 52)" using False by (intro power_int_increasing) simp_all
    finally have small: "\<bar>f_val y\<bar> < 2 powi ilog2q n d" by (simp add: q)
    have "of_int (2 ^ 52) * 2 powi q = (2 powi ilog2q n d :: rat)"
    proof -
      have "(2::rat) powi (q + 52) = 2 powi q * 2 powi 52" by (simp add: power_int_add)
      then show ?thesis by (simp add: q mult.commute)
    qed
    then have "\<bar>of_nat m * 2 powi q - x0\<bar> \<le> x0 - 2 powi ilog2q n d"
      using near[of "2 ^ 52"] e by simp
    also have "\<dots> \<le> \<bar>sg * f_val y - x0\<bar>" using small sg(3)[of "f_val y"] by linarith
    finally show ?thesis .
  qed
  moreover have "(if s then -1 else 1) * of_nat n / of_nat d = sg * x0" by (simp add: sg_def x0_def)
  ultimately show ?thesis using assms(2) unfolding nearest_float_def val by (simp add: sg(1,2,4))
qed

subsection \<open>Below the threshold the rounding is finite\<close>

lemma rne_div_half: "b * (2 * rne_div a b) \<le> 2 * a + b"
proof -
  define m0 where "m0 = a div b"
  define r where "r = a mod b"
  have a: "a = b * m0 + r" by (simp add: m0_def r_def)
  show ?thesis
  proof (cases "b < 2 * r \<or> (2 * r = b \<and> odd m0)")
    case True
    then have "rne_div a b = Suc m0" by (simp add: rne_div_def m0_def r_def Let_def)
    moreover have "b \<le> 2 * r" using True by auto
    ultimately show ?thesis using a by (simp add: algebra_simps)
  next
    case False
    then have "rne_div a b = m0" by (simp add: rne_div_def m0_def r_def Let_def)
    then show ?thesis using a by (simp add: algebra_simps)
  qed
qed

lemma encode_finite:
  assumes "m < 2 ^ 53" "m < 2 ^ 52 \<or> q + 1075 < 2047"
  shows "is_finite (encode_mq s m q)"
proof (cases "m < 2 ^ 52")
  case True
  then show ?thesis using f_make_class(4)[of 0 m s] by (simp add: encode_mq_def)
next
  case False
  then have "q + 1075 < 2047" "m - 2 ^ 52 < 2 ^ 52" using assms by auto
  then show ?thesis using False f_make_class(4)[of "nat (q + 1075)" "m - 2 ^ 52" s] by (simp add: encode_mq_def)
qed

lemma round_div_finite:
  assumes d: "0 < d" and x: "(of_nat n / of_nat d :: rat) < f_threshold"
  shows "is_finite (round_div s n d)"
proof (cases "n = 0")
  case True
  then show ?thesis using f_make_class(4)[of 0 0 s] by (simp add: round_div_def)
next
  case False
  then have n: "0 < n" by simp
  define q where "q = quantum n d"
  define A where "A = scaled_num n q"
  define B where "B = scaled_den d q"
  define m where "m = rne_div A B"
  have B: "0 < B" using scaled_den_pos[OF d] by (simp add: B_def)
  have "\<not> pow2_le n d 1024" using x pow2_le_rat[OF d, of n 1024] by (simp add: f_threshold_def)
  moreover have "pow2_le n d 1024" if "1024 \<le> ilog2q n d"
    using pow2_le_mono[OF ilog2q_spec(1)[OF n d] that] .
  ultimately have "ilog2q n d < 1024" by linarith
  then have q: "q \<le> 971" by (simp add: q_def quantum_def)
  have up: "m \<le> 2 ^ 53" using rne_scaled_upper[OF n d] by (simp add: m_def A_def B_def q_def)
  have rd: "round_div s n d = (if m = 2 ^ 53 then encode_mq s (2 ^ 52) (q + 1) else encode_mq s m q)"
    using round_div_scaled[OF n, of s d] by (simp add: m_def A_def B_def q_def Let_def)
  show ?thesis
  proof (cases "m = 2 ^ 53")
    case True
    have "q \<noteq> 971"
    proof
      assume q971: "q = 971"
      have "B * (2 * 2 ^ 53) \<le> 2 * A + B" using rne_div_half[of B A] True by (simp add: m_def)
      then have "(of_nat (B * (2 * 2 ^ 53)) :: rat) \<le> of_nat (2 * A + B)" by (simp only: of_nat_le_iff)
      then have "(of_nat B :: rat) * (2 * 2 ^ 53) \<le> 2 * of_nat A + of_nat B" by simp
      then have "(2 ^ 53 - 1 / 2 :: rat) \<le> of_nat A / of_nat B" using B by (simp add: field_simps)
      moreover have "(of_nat A / of_nat B :: rat) = (of_nat n / of_nat d) / 2 powi 971"
        using scaled_ratio[OF d, of n q] q971 by (simp add: A_def B_def)
      ultimately have "(2 ^ 53 - 1 / 2) * 2 powi 971 \<le> (of_nat n / of_nat d :: rat)"
        by (simp add: pos_le_divide_eq)
      then show False using x by (simp add: f_threshold_def)
    qed
    then show ?thesis using rd True q encode_finite[of "2 ^ 52" "q + 1" s] by simp
  next
    case False
    then show ?thesis using rd up q encode_finite[of m q s] by simp
  qed
qed

subsection \<open>The operator \<open>*\<close> and numeric literals\<close>

lemma round_val_as_div:
  "round_val s m k = round_div s (scaled_num m (- k)) (scaled_den 1 (- k)) \<and>
   (of_nat (scaled_num m (- k)) / of_nat (scaled_den 1 (- k)) :: rat) = of_nat m * 2 powi k"
  using scaled_ratio[of 1 m "- k"]
  by (auto simp: round_val_def scaled_num_def scaled_den_def power_int_minus divide_inverse)

lemma round_val_nearest:
  assumes "is_finite (round_val s m k)"
  shows "nearest_float ((if s then -1 else 1) * of_nat m * 2 powi k) (round_val s m k)"
proof -
  define A where "A = scaled_num m (- k)"
  define B where "B = scaled_den 1 (- k)"
  have eq: "round_val s m k = round_div s A B" and r: "(of_nat A / of_nat B :: rat) = of_nat m * 2 powi k"
    using round_val_as_div[of s m k] by (simp_all add: A_def B_def)
  have "(if s then -1 else 1) * of_nat A / of_nat B = (if s then -1 else 1) * of_nat m * (2 powi k :: rat)"
    by (metis r times_divide_eq_right mult.assoc)
  moreover have "0 < B" using scaled_den_pos[of 1 "- k"] by (simp add: B_def)
  ultimately show ?thesis using round_div_nearest[of B s A] assms eq by simp
qed

lemma fmul_finite:
  assumes "is_finite a" "is_finite b"
  shows "fmul a b = round_val (f_sign a \<noteq> f_sign b) (f_signif a * f_signif b) (f_qexp a + f_qexp b)"
  using finite_not_special[OF assms(1)] finite_not_special[OF assms(2)] by (simp add: fmul_def)

lemma f_val_mult:
  "f_val a * f_val b =
    (if f_sign a \<noteq> f_sign b then -1 else 1) * of_nat (f_signif a * f_signif b) * 2 powi (f_qexp a + f_qexp b)"
  by (simp add: f_val_def power_int_add algebra_simps)

lemma fmul_round:
  assumes "is_finite a" "is_finite b" "is_finite (fmul a b)"
  shows "nearest_float (f_val a * f_val b) (fmul a b)"
  using round_val_nearest[of "f_sign a \<noteq> f_sign b" "f_signif a * f_signif b" "f_qexp a + f_qexp b"]
    assms fmul_finite[OF assms(1,2)] f_val_mult[of a b] by simp

lemma fmul_finite_below:
  assumes "is_finite a" "is_finite b" "\<bar>f_val a * f_val b\<bar> < f_threshold"
  shows "is_finite (fmul a b)"
proof -
  define m where "m = f_signif a * f_signif b"
  define k where "k = f_qexp a + f_qexp b"
  obtain A B where eq: "round_val (f_sign a \<noteq> f_sign b) m k = round_div (f_sign a \<noteq> f_sign b) A B"
    and r: "(of_nat A / of_nat B :: rat) = of_nat m * 2 powi k" and B: "0 < B"
    using round_val_as_div[of "f_sign a \<noteq> f_sign b" m k] scaled_den_pos[OF zero_less_one, of "- k"] by blast
  have "\<bar>f_val a * f_val b\<bar> = of_nat m * 2 powi k"
    using f_val_mult[of a b] by (simp add: m_def k_def abs_mult)
  then have "is_finite (round_div (f_sign a \<noteq> f_sign b) A B)" using round_div_finite[OF B] assms(3) r by simp
  then show ?thesis using fmul_finite[OF assms(1,2)] eq by (simp add: m_def k_def)
qed



subsection \<open>Overflow\<close>

lemma ilog2q_ge:
  assumes "0 < n" "0 < d" "pow2_le n d p"
  shows "p \<le> ilog2q n d"
proof (rule ccontr)
  assume "\<not> p \<le> ilog2q n d"
  then have "pow2_le n d (ilog2q n d + 1)" using pow2_le_mono[OF assms(3)] by simp
  then show False using ilog2q_spec(2)[OF assms(1,2)] by simp
qed

lemma round_div_overflow:
  assumes "0 < d" "pow2_le n d 1024"
  shows "round_div s n d = f_make s 2047 0"
proof -
  have n: "0 < n" using assms by (auto simp: pow2_le_def)
  define q where "q = quantum n d"
  define m where "m = rne_div (scaled_num n q) (scaled_den d q)"
  have "1024 \<le> ilog2q n d" using ilog2q_ge[OF n assms(1,2)] .
  then have q: "972 \<le> q" "-1074 < q" by (simp_all add: q_def quantum_def)
  have "2 ^ 52 \<le> m" using rne_scaled_lower[OF n assms(1)] q by (simp add: m_def q_def)
  then show ?thesis
    using round_div_scaled[OF n, of s d] q by (simp add: m_def q_def Let_def encode_mq_def)
qed

lemma fmul_overflow:
  assumes "is_finite a" "is_finite b" "2 powi 1024 \<le> \<bar>f_val a * f_val b\<bar>"
  shows "fmul a b = f_make (f_sign a \<noteq> f_sign b) 2047 0"
proof -
  define m where "m = f_signif a * f_signif b"
  define k where "k = f_qexp a + f_qexp b"
  obtain A B where eq: "round_val (f_sign a \<noteq> f_sign b) m k = round_div (f_sign a \<noteq> f_sign b) A B"
    and r: "(of_nat A / of_nat B :: rat) = of_nat m * 2 powi k" and B: "0 < B"
    using round_val_as_div[of "f_sign a \<noteq> f_sign b" m k] scaled_den_pos[OF zero_less_one, of "- k"] by blast
  have "\<bar>f_val a * f_val b\<bar> = of_nat m * 2 powi k"
    using f_val_mult[of a b] by (simp add: m_def k_def abs_mult)
  then have "pow2_le A B 1024" using assms(3) r by (simp add: pow2_le_rat[OF B])
  then show ?thesis using fmul_finite[OF assms(1,2)] eq round_div_overflow[OF B] by (simp add: m_def k_def)
qed


lemma pow2_shift52: "(2::rat) ^ 52 * 2 powi k = 2 powi (k + 52)"
  by (simp add: power_int_add)

text \<open>A normal number is at least \<open>2^(e - 1023)\<close> in magnitude.\<close>

lemma f_val_abs_ge:
  assumes "0 < f_exp y"
  shows "2 powi (int (f_exp y) - 1023) \<le> \<bar>f_val y\<bar>"
proof -
  define P where "P = (2::rat) powi (int (f_exp y) - 1075)"
  have v: "\<bar>f_val y\<bar> = 2 ^ 52 * P + of_nat (f_frac y) * P"
    using assms by (simp add: f_val_def f_signif_def f_qexp_def abs_mult P_def distrib_right)
  have "0 \<le> of_nat (f_frac y) * P" by (simp add: P_def)
  moreover have "2 ^ 52 * P = 2 powi (int (f_exp y) - 1023)"
    using pow2_shift52[of "int (f_exp y) - 1075"] by (simp add: P_def)
  ultimately show ?thesis using v by linarith
qed

end
