(* ===== verification/BundleModules.thy ===== *)
theory BundleModules
  imports Loader JsConvert Rounding
begin

text \<open>
  The two modules of the registry (src/bundle.js lines 43--85) as module
  functions of the Loader: module 1, the circle helpers (lines 67--84), and
  module 0, the entry (lines 45--65), which requires module 1, builds its
  namespace object with \<open>_interopRequireWildcard\<close> and prints three lines.
  A function declaration is instantiated when its module function starts
  (hoisting): a function object with \<open>length\<close>, \<open>prototype\<close> and \<open>name\<close>
  and its prototype object with \<open>constructor\<close>. \<open>circumference\<close> and
  \<open>area\<close> read the module-level \<open>PI\<close>, which line 76 sets before module 1
  returns; module 1 calls nothing in between, so every call sees the literal.
\<close>

subsection \<open>Function objects\<close>

definition ro_prop :: "jsval \<Rightarrow> property" where
  "ro_prop v = \<lparr>pval = v, writable = False, enumerable = False, configurable = True\<rparr>"

definition fun_obj :: "jsfun \<Rightarrow> addr \<Rightarrow> obj" where
  "fun_obj f p =
     \<lparr>props = [(''length'', ro_prop (JNum (dec_lit 1 0))),
               (''prototype'', \<lparr>pval = JObj p, writable = True, enumerable = False, configurable = False\<rparr>),
               (''name'', ro_prop (JStr (fun_name f)))],
      call = Some f\<rparr>"

definition proto_obj :: "addr \<Rightarrow> obj" where
  "proto_obj a =
     \<lparr>props = [(''constructor'', \<lparr>pval = JObj a, writable = True, enumerable = False, configurable = True\<rparr>)],
      call = None\<rparr>"

text \<open>InstantiateFunctionObject: the function at \<open>a\<close>, its prototype at \<open>a + 1\<close>.\<close>

definition alloc_fun :: "jsfun \<Rightarrow> ('x, addr) jsm" where
  "alloc_fun f s =
     (let a = length (heap s) in (Inr a, s\<lparr>heap := heap s @ [fun_obj f (Suc a), proto_obj a]\<rparr>))"

subsection \<open>Module 1: circle helpers (lines 67--84)\<close>

definition pi_lit :: float64 where
  "pi_lit = dec_lit 3141592653589793 (-15)"

text \<open>\<open>2 * PI * r\<close> and \<open>PI * r * r\<close>, both left-associative.\<close>

definition circumference :: "jsval \<Rightarrow> float64" where
  "circumference r = fmul (fmul (dec_lit 2 0) pi_lit) (to_number r)"

definition area :: "jsval \<Rightarrow> float64" where
  "area r = fmul (fmul pi_lit (to_number r)) (to_number r)"

definition module1 :: module_fn where
  "module1 req m ex =
     bind_exc (alloc_fun FCircumference) (\<lambda>fc.
     bind_exc (alloc_fun FArea) (\<lambda>fa.
     bind_exc (define_value_prop ex ''__esModule'' (JBool True)) (\<lambda>_.
     bind_exc (put_value ex ''circumference'' (JObj fc)) (\<lambda>_.
     bind_exc (put_value ex ''area'' (JObj fa)) (\<lambda>_.
     put_value ex ''PI'' (JNum pi_lit))))))"

subsection \<open>Module 0: the entry (lines 45--65)\<close>

text \<open>The loop of line 53: copy each own enumerable key of \<open>src\<close> to \<open>dst\<close>.\<close>

primrec copy_keys :: "jsval \<Rightarrow> jsval \<Rightarrow> string list \<Rightarrow> ('x, unit) jsm" where
  "copy_keys src dst [] = ret ()"
| "copy_keys src dst (k # ks) =
     (\<lambda>s. if has_own src k s then
            bind_exc (get_value src k) (\<lambda>v.
            bind_exc (put_value dst k v) (\<lambda>_. copy_keys src dst ks)) s
          else copy_keys src dst ks s)"

definition interop_require_wildcard :: "jsval \<Rightarrow> ('x, jsval) jsm" where
  "interop_require_wildcard obj =
     bind_exc (if to_boolean obj then get_value obj ''__esModule'' else ret obj) (\<lambda>t.
     if to_boolean t then ret obj
     else
       bind_exc (alloc empty_obj) (\<lambda>n.
       bind_exc (if \<not> loose_eq_null obj then (\<lambda>s. copy_keys obj (JObj n) (enum_keys obj s) s)
                 else ret ()) (\<lambda>_.
       bind_exc (put_value (JObj n) ''default'' obj) (\<lambda>_.
       ret (JObj n)))))"

text \<open>
  What \<open>_interopRequireWildcard\<close> promises for a CommonJS module (one whose
  \<open>__esModule\<close> is not truthy): a fresh plain object holding, in for-in order,
  a data property for each key \<open>ks\<close> with the module's value, and
  \<open>default\<close> set to the module itself (updated in place when it is one of
  the keys).
\<close>

definition namespace_obj :: "obj \<Rightarrow> string list \<Rightarrow> jsval \<Rightarrow> obj" where
  "namespace_obj ob ks v =
     \<lparr>props = AList.update ''default'' (data_prop v) (map (\<lambda>k. (k, data_prop (own_val ob k))) ks),
      call = None\<rparr>"

text \<open>A call \<open>f(args)\<close>: a TypeError unless \<open>f\<close> is a function object.\<close>

definition call_value :: "jsval \<Rightarrow> jsval list \<Rightarrow> ('x, jsval) jsm" where
  "call_value f args s =
     (let r = (case args of [] \<Rightarrow> JUndef | a # _ \<Rightarrow> a) in
      case f of
        JObj a \<Rightarrow>
          (case obj_at a s of
             Some ob \<Rightarrow>
               (case call ob of
                  Some FCircumference \<Rightarrow> ret (JNum (circumference r)) s
                | Some FArea \<Rightarrow> ret (JNum (area r)) s
                | Some FInterop \<Rightarrow> interop_require_wildcard r s
                | None \<Rightarrow> throw TypeError s)
           | None \<Rightarrow> throw TypeError s)
      | _ \<Rightarrow> throw TypeError s)"

text \<open>\<open>"One: " + one + ", Two: " + two + ", Three: " + three\<close>, left to right.\<close>

definition line59 :: "jsval \<Rightarrow> jsval \<Rightarrow> jsval \<Rightarrow> 'x js_state_scheme \<Rightarrow> jsval" where
  "line59 one two three s =
     js_add (js_add (js_add (js_add (js_add (JStr ''One: '') one s) (JStr '', Two: '') s) two s)
       (JStr '', Three: '') s) three s"

definition module0 :: module_fn where
  "module0 req m ex =
     bind_exc (alloc_fun FInterop) (\<lambda>_.
     bind_exc (req 1) (\<lambda>umath.
     bind_exc (interop_require_wildcard umath) (\<lambda>math.
     bind_exc (\<lambda>s. console_log (line59 (JNum (dec_lit 1 0)) (JNum (dec_lit 2 0)) (JNum (dec_lit 3 0)) s) s) (\<lambda>_.
     bind_exc (get_value umath ''area'') (\<lambda>f.
     bind_exc (get_value umath ''PI'') (\<lambda>p.
     bind_exc (call_value f [p]) (\<lambda>r.
     bind_exc (console_log r) (\<lambda>_.
     bind_exc (get_value math ''area'') (\<lambda>g.
     bind_exc (get_value math ''PI'') (\<lambda>q.
     bind_exc (call_value g [q]) (\<lambda>r'.
     console_log r')))))))))))"

text \<open>The registry: the array literal of lines 43--85.\<close>

definition bundle_modules :: "module_fn list" where
  "bundle_modules = [module0, module1]"

lemmas [js_eval] = bundle_modules_def module1_def module0_def alloc_fun_def fun_obj_def proto_obj_def
  define_value_prop_def put_value_def put_value_sloppy_def get_value_def obj_at_def get_own_def set_own_def upd_obj_def
  alloc_def install_def init_state_def module_obj_def data_prop_def ro_prop_def ret_def throw_def
  bind_exc_def empty_obj_def list_get_def bootstrap_def interop_require_wildcard_def console_log_def
  call_value_def line59_def js_add_def to_primitive_def nth_append

subsection \<open>Both modules keep the Loader's interface\<close>

lemma keeps_alloc_fun [intro]: "keeps rt_grows (alloc_fun f)"
  by (simp add: keeps_def alloc_fun_def rt_grows_def Let_def)

lemma keeps_define_value_prop [intro]: "keeps rt_grows (define_value_prop v k x)"
  by (simp add: keeps_def rt_grows_def define_value_prop_def ret_def throw_def upd_obj_def
      split: jsval.splits option.splits)

lemma keeps_console_log [intro]: "keeps rt_grows (console_log v)"
  by (simp add: keeps_def rt_grows_def console_log_def)

lemma keeps_copy_keys [intro]: "keeps rt_grows (copy_keys src dst ks)"
proof (induction ks)
  case Nil
  show ?case by (simp only: copy_keys.simps) (rule keeps_rt_grows_ret)
next
  case (Cons k ks)
  then show ?case
    by (simp only: copy_keys.simps) (intro keeps_if keeps_rt_grows_bind keeps_get_value keeps_put_value)
qed

lemma keeps_copy_keys_dep: "keeps rt_grows (\<lambda>s. copy_keys src dst (K s) s)"
  using keeps_copy_keys by (simp add: keeps_def)

lemma keeps_console_log_dep: "keeps rt_grows (\<lambda>s. console_log (F s) s)"
  by (simp add: keeps_def rt_grows_def console_log_def)

lemma keeps_interop [intro]: "keeps rt_grows (interop_require_wildcard obj)"
  unfolding interop_require_wildcard_def
  by (intro keeps_rt_grows_bind keeps_if_const keeps_get_value keeps_rt_grows_ret keeps_alloc
      keeps_copy_keys_dep keeps_put_value)

lemma call_value_state:
  "snd (call_value f args s) = s \<or>
   snd (call_value f args s) = snd (interop_require_wildcard (case args of [] \<Rightarrow> JUndef | a # _ \<Rightarrow> a) s)"
  by (simp add: call_value_def Let_def ret_def throw_def split: jsval.splits option.splits jsfun.splits)

lemma keeps_call_value [intro]: "keeps rt_grows (call_value f args)"
  using call_value_state[of f args] keeps_interop rt_grows_refl
  unfolding keeps_def by (metis reflpD)

lemma module1_ok: "module_ok module1"
  unfolding module_ok_def
proof (intro allI impI)
  fix req :: require_fn and m ex
  show "keeps rt_grows (module1 req m ex)"
    unfolding module1_def
    by (intro keeps_rt_grows_bind keeps_alloc_fun keeps_define_value_prop keeps_put_value)
qed

lemma module1_live: "module_live module1"
  unfolding module_live_def
proof (intro allI impI)
  fix req :: require_fn and m e and s :: rt_state
  assume e: "obj_at e s = Some empty_obj" and m: "m < length (heap s)"
  have e': "e < length (heap s)" "heap s ! e = empty_obj"
    using e by (auto simp: obj_at_def list_get_Some_iff)
  show "\<exists>s'. module1 req m (JObj e) s = (Inr (), s') \<and> m < length (heap s')"
    using e' m by (simp add: module1_def alloc_fun_def define_value_prop_def put_value_def obj_at_def
        list_get_def get_own_def set_own_def upd_obj_def ret_def empty_obj_def nth_append Let_def)
qed

lemma module0_ok: "module_ok module0"
  unfolding module_ok_def
proof (intro allI impI)
  fix req :: require_fn and m ex
  assume r: "\<forall>i. keeps rt_grows (req i)"
  show "keeps rt_grows (module0 req m ex)"
    unfolding module0_def
    using r by (intro keeps_rt_grows_bind keeps_alloc_fun keeps_interop keeps_console_log_dep
        keeps_console_log keeps_get_value keeps_call_value) auto
qed

lemma bundle_modules_ok: "list_all module_ok bundle_modules"
  by (simp add: bundle_modules_def module0_ok module1_ok)

subsection \<open>Values the bundle computes\<close>

lemma pi_lit_bits: "pi_lit = 0x400921FB54442D18"
  by (simp add: pi_lit_def float_eval)

lemma small_lits: "dec_lit 1 0 = 0x3FF0000000000000" "dec_lit (Suc 0) 0 = 0x3FF0000000000000"
  "dec_lit 2 0 = 0x4000000000000000" "dec_lit 3 0 = 0x4008000000000000"
  by (simp_all add: float_eval)

lemma to_string_small: "number_to_string 0x3FF0000000000000 = ''1''"
  "number_to_string 0x4000000000000000 = ''2''" "number_to_string 0x4008000000000000 = ''3''"
  by (simp_all add: to_string_eval)

lemma area_pi_bits: "area (JNum pi_lit) = 0x403F019B59389D7B"
  by (simp add: area_def pi_lit_bits float_eval)

text \<open>The decimal \<open>31.00627668029982\<close> the spec gives for \<open>area(PI)\<close> is the next binary64 value up.\<close>

lemma spec_area_literal: "dec_lit 3100627668029982 (-14) = 0x403F019B59389D7C"
  by (simp add: float_eval)

lemma pi_fields: "is_finite pi_lit" "f_exp pi_lit = 1024" "\<not> f_sign pi_lit"
  by (simp_all add: pi_lit_bits float_eval)

lemma two_pi_exact: "fmul (dec_lit 2 0) pi_lit = f_make False 1025 (f_frac pi_lit)"
proof -
  have two: "dec_lit 2 0 = f_make False 1024 0" by (simp add: float_eval)
  have "fmul (f_make False 1024 0) pi_lit = round_val False (f_signif pi_lit) (f_qexp pi_lit + 1)"
    using fmul_pow2[of pi_lit 1024] pi_fields by (simp add: add.commute)
  also have "\<dots> = encode_mq False (f_signif pi_lit) (f_qexp pi_lit + 1)"
    using pi_fields f_frac_lt[of pi_lit]
    by (intro round_val_exact) (simp add: canonical_def f_signif_def f_qexp_def)
  also have "\<dots> = f_make False 1025 (f_frac pi_lit)"
    using pi_fields by (simp add: encode_mq_def f_signif_def f_qexp_def)
  finally show ?thesis by (simp add: two)
qed

lemma two_pi_val: "f_val (fmul (dec_lit 2 0) pi_lit) = 2 * f_val pi_lit"
proof -
  have "f_val (f_make False 1025 (f_frac pi_lit)) = of_nat (2 ^ 52 + f_frac pi_lit) * 2 powi (- 50)"
    using f_val_f_make[of 1025 "f_frac pi_lit" False] f_frac_lt[of pi_lit] by simp
  moreover have "f_val pi_lit = of_nat (2 ^ 52 + f_frac pi_lit) * 2 powi (- 51)"
    using pi_fields by (simp add: f_val_def f_signif_def f_qexp_def)
  moreover have "(2::rat) powi (- 50) = 2 * 2 powi (- 51)" by (simp add: power_int_minus)
  ultimately show ?thesis by (simp add: two_pi_exact)
qed

lemma two_pi_finite: "is_finite (fmul (dec_lit 2 0) pi_lit)"
  using f_make_class(4)[of 1025 "f_frac pi_lit" False] f_frac_lt[of pi_lit] by (simp add: two_pi_exact)

text \<open>C13: circumference rounds once: 2 * PI is exact, so for every finite r whose exact product with 2 * PI is below the overflow threshold, circumference(r) is a finite number closest to the exact 2 * PI * r, with PI the value of the literal.\<close>

theorem circumference_nearest:
  assumes "is_finite r" "\<bar>2 * f_val pi_lit * f_val r\<bar> < f_threshold"
  shows "nearest_float (2 * f_val pi_lit * f_val r) (circumference (JNum r))"
  using fmul_round[OF two_pi_finite assms(1) fmul_finite_below[OF two_pi_finite assms(1)]] assms(2)
  by (simp add: circumference_def two_pi_val)

text \<open>C14: area rounds twice, left to right: for every finite r for which neither product overflows, PI * r is a finite number closest to the exact product, and area(r) is a finite number closest to the exact product of that rounded value with r.\<close>

theorem area_two_roundings:
  assumes "is_finite r" "\<bar>f_val pi_lit * f_val r\<bar> < f_threshold"
    "\<bar>f_val (fmul pi_lit r) * f_val r\<bar> < f_threshold"
  shows "nearest_float (f_val pi_lit * f_val r) (fmul pi_lit r) \<and>
    nearest_float (f_val (fmul pi_lit r) * f_val r) (area (JNum r))"
proof -
  have p: "is_finite (fmul pi_lit r)" using fmul_finite_below[OF pi_fields(1) assms(1,2)] .
  show ?thesis
    using fmul_round[OF pi_fields(1) assms(1) p] fmul_round[OF p assms(1) fmul_finite_below[OF p assms(1,3)]]
    by (simp add: area_def)
qed

text \<open>C12: circumference overflows: for every finite r of magnitude at least 2^1022 (biased exponent 2045 or 2046), circumference(r) is an infinity with the sign of r, not a finite 2 * pi * r.\<close>

theorem circumference_overflow:
  assumes "is_finite r" "2045 \<le> f_exp r"
  shows "circumference (JNum r) = f_make (f_sign r) 2047 0"
proof -
  define t where "t = f_make False 1025 (f_frac pi_lit)"
  have t: "is_finite t" "\<not> f_sign t" "f_exp t = 1025"
    using f_make_class(4)[of 1025 "f_frac pi_lit" False] f_make_sel[of 1025 "f_frac pi_lit" False]
      f_frac_lt[of pi_lit] by (simp_all add: t_def)
  have "(2::rat) powi 2 \<le> \<bar>f_val t\<bar>" using f_val_abs_ge[of t] t by simp
  moreover have "(2::rat) powi 1022 \<le> \<bar>f_val r\<bar>"
  proof -
    have "(2::rat) powi 1022 \<le> 2 powi (int (f_exp r) - 1023)"
      using assms(2) by (intro power_int_increasing) simp_all
    then show ?thesis using f_val_abs_ge[of r] assms(2) by simp
  qed
  ultimately have "(2::rat) powi 2 * 2 powi 1022 \<le> \<bar>f_val t\<bar> * \<bar>f_val r\<bar>"
    by (intro mult_mono) simp_all
  then have "2 powi 1024 \<le> \<bar>f_val t * f_val r\<bar>" by (simp add: abs_mult)
  then show ?thesis
    using fmul_overflow[OF t(1) assms(1)] t(2) by (simp add: circumference_def two_pi_exact t_def)
qed

text \<open>C18: _interopRequireWildcard returns an object whose __esModule property is truthy as it is, without allocating or copying anything.\<close>

lemma interop_es_module:
  assumes "to_boolean obj" "get_value obj ''__esModule'' s = (Inr t, s)" "to_boolean t"
  shows "interop_require_wildcard obj s = (Inr obj, s)"
  using assms by (simp add: interop_require_wildcard_def ret_def)

text \<open>
  The for-in loop of line 53 on a fresh target: each key, distinct and an own
  key of the source, is appended to the target as a data property with the
  source's value.
\<close>

lemma copy_keys_fresh:
  assumes "obj_at a t = Some ob" "heap t ! n = \<lparr>props = P, call = None\<rparr>" "n < length (heap t)" "a \<noteq> n"
    "distinct ks" "set ks \<subseteq> fst ` set (props ob)" "set ks \<inter> fst ` set P = {}"
  shows "copy_keys (JObj a) (JObj n) ks t =
    (Inr (), t\<lparr>heap := (heap t)[n := \<lparr>props = P @ map (\<lambda>k. (k, data_prop (own_val ob k))) ks, call = None\<rparr>]\<rparr>)"
  using assms
proof (induction ks arbitrary: P t)
  case Nil
  then show ?case using list_update_id[of "heap t" n] by (simp add: ret_def)
next
  case (Cons k ks)
  have own: "has_own (JObj a) k t" "get_value (JObj a) k t = (Inr (own_val ob k), t)"
    using Cons.prems(1,6) by (auto simp: has_own_def get_value_def own_val_def get_own_def ret_def
        split: option.split dest: weak_map_of_SomeI)
  have put: "put_value (JObj n) k (own_val ob k) t =
      (Inr (), upd_obj n \<lparr>props = P @ [(k, data_prop (own_val ob k))], call = None\<rparr> t)"
  proof -
    have "map_of P k = None" "k \<notin> fst ` set P" using Cons.prems(7) by (auto simp: map_of_eq_None_iff)
    then show ?thesis using Cons.prems(2,3)
      by (simp add: put_value_def obj_at_def list_get_def get_own_def set_own_def ret_def update_absent)
  qed
  define t' where "t' = upd_obj n \<lparr>props = P @ [(k, data_prop (own_val ob k))], call = None\<rparr> t"
  have ih: "copy_keys (JObj a) (JObj n) ks t' =
    (Inr (), t'\<lparr>heap := (heap t')[n := \<lparr>props = (P @ [(k, data_prop (own_val ob k))]) @
        map (\<lambda>k. (k, data_prop (own_val ob k))) ks, call = None\<rparr>]\<rparr>)"
    using Cons.prems by (intro Cons.IH) (auto simp: t'_def obj_at_update_other upd_obj_def)
  show ?case using own put ih by (simp add: t'_def upd_obj_def)
qed

text \<open>C17: _interopRequireWildcard of a CommonJS module object (own keys distinct, __esModule not truthy) allocates one object and returns it, and that object is the namespace the spec describes: the module's enumerable own properties copied in for-in order as data properties, then default set to the module.\<close>

theorem interop_commonjs:
  assumes "obj_at a s = Some ob" "\<not> to_boolean (own_val ob ''__esModule'')" "distinct (map fst (props ob))"
  shows "interop_require_wildcard (JObj a) s =
    (Inr (JObj (length (heap s))),
     s\<lparr>heap := heap s @ [namespace_obj ob (enum_keys (JObj a) s) (JObj a)]\<rparr>)"
proof -
  define n where "n = length (heap s)"
  define ks where "ks = enum_keys (JObj a) s"
  define s1 where "s1 = s\<lparr>heap := heap s @ [empty_obj]\<rparr>"
  define Q where "Q = map (\<lambda>k. (k, data_prop (own_val ob k))) ks"
  have a: "a < n" "a \<noteq> n" using assms(1) by (auto simp: obj_at_def list_get_Some_iff n_def)
  have es: "get_value (JObj a) ''__esModule'' s = (Inr (own_val ob ''__esModule''), s)"
    using assms(1) by (simp add: get_value_def own_val_def ret_def split: option.split)
  have al: "alloc empty_obj s = (Inr n, s1)" by (simp add: alloc_def n_def s1_def)
  have o1: "obj_at a s1 = Some ob"
    using assms(1) by (simp add: s1_def obj_at_def list_get_def nth_append split: if_splits)
  have k1: "enum_keys (JObj a) s1 = ks" using assms(1) o1 by (simp add: ks_def enum_keys_def)
  have cp: "copy_keys (JObj a) (JObj n) ks s1 = (Inr (), s1\<lparr>heap := (heap s1)[n := \<lparr>props = Q, call = None\<rparr>]\<rparr>)"
    using copy_keys_fresh[OF o1, of n "[]" ks] enum_keys_obj[OF assms(1,3)] a
    by (simp add: s1_def n_def empty_obj_def Q_def ks_def)
  have o2: "obj_at n (s1\<lparr>heap := (heap s1)[n := \<lparr>props = Q, call = None\<rparr>]\<rparr>) = Some \<lparr>props = Q, call = None\<rparr>"
    by (simp add: s1_def n_def obj_at_def list_get_def)
  have pd: "put_value (JObj n) ''default'' (JObj a) (s1\<lparr>heap := (heap s1)[n := \<lparr>props = Q, call = None\<rparr>]\<rparr>) =
    (Inr (), s\<lparr>heap := heap s @ [namespace_obj ob ks (JObj a)]\<rparr>)"
    using put_value_data_props[OF o2[unfolded Q_def]]
    by (simp add: upd_obj_def s1_def n_def namespace_obj_def Q_def)
  show ?thesis
    unfolding interop_require_wildcard_def
    using es al cp pd assms(2) by (simp add: k1 n_def[symmetric] ks_def[symmetric] ret_def)
qed

text \<open>C19: module 1 run on an empty exports object allocates the function objects circumference and area with their prototype objects, and leaves the exports object with the non-enumerable, read-only __esModule = true followed by circumference, area and PI, in this order.\<close>

lemma module1_exports:
  assumes "obj_at e s = Some empty_obj"
  shows "module1 req m (JObj e) s =
    (Inr (), s\<lparr>heap := (heap s @ [fun_obj FCircumference (Suc (length (heap s))), proto_obj (length (heap s)),
        fun_obj FArea (Suc (Suc (Suc (length (heap s))))), proto_obj (Suc (Suc (length (heap s))))])[e :=
        \<lparr>props = [(''__esModule'', \<lparr>pval = JBool True, writable = False, enumerable = False, configurable = False\<rparr>),
                   (''circumference'', data_prop (JObj (length (heap s)))),
                   (''area'', data_prop (JObj (Suc (Suc (length (heap s)))))),
                   (''PI'', data_prop (JNum pi_lit))], call = None\<rparr>]\<rparr>)"
proof -
  have e: "e < length (heap s)" "heap s ! e = empty_obj"
    using assms by (auto simp: obj_at_def list_get_Some_iff)
  show ?thesis
    using e by (simp add: module1_def alloc_fun_def define_value_prop_def put_value_def obj_at_def
        list_get_def get_own_def set_own_def upd_obj_def ret_def empty_obj_def nth_append Let_def)
qed

text \<open>C3: the entry of the bundle completes from any state in which modules 0 and 1 are not cached, whatever else the heap, the cache and the console hold: require(0) at every depth of at least 2 returns module 0's fresh exports object and appends exactly the three lines of lines 59-64 to the console, after what it already held.\<close>

theorem entry_from_any_state:
  assumes "installed s 0 = None" "installed s 1 = None"
  shows "fst (require (Suc (Suc n)) bundle_modules 0 s) = Inr (JObj (length (heap s))) \<and>
    console (snd (require (Suc (Suc n)) bundle_modules 0 s)) =
      console s @ [JStr ''One: 1, Two: 2, Three: 3'', JNum 0x403F019B59389D7B, JNum 0x403F019B59389D7B]"
proof -
  have a: "area (JNum 0x400921FB54442D18) = 0x403F019B59389D7B"
    using area_pi_bits by (simp add: pi_lit_bits)
  show ?thesis using assms
    by (simp add: js_eval small_lits to_string_small pi_lit_bits a list_get_append_old)
qed

end
