(* ===== verification/Scenarios.thy ===== *)
theory Scenarios
  imports BundleModules
begin

text \<open>
  Test doubles for the Loader: module functions that the bundle's registry
  does not contain, written with the same statements as the bundle's modules,
  as concrete inputs of the Loader's theorems on the paths of
  \<open>__webpack_require__\<close> (src/bundle.js lines 6--27) that modules 0 and 1
  never take: a module that throws half-way, the diamond of requests of spec
  section 4.2, and a CommonJS module object for the other branch of
  \<open>_interopRequireWildcard\<close>.
\<close>

text \<open>\<open>exports.a = 1; undefined();\<close>: a TypeError after a first export.\<close>

definition bad_module :: module_fn where
  "bad_module req m ex =
     bind_exc (put_value ex ''a'' (JNum (dec_lit 1 0))) (\<lambda>_.
     bind_exc (call_value JUndef []) (\<lambda>_. ret ()))"

text \<open>
  A module that requires the ids \<open>deps\<close> in order, then logs its \<open>name\<close>;
  \<open>diamond\<close> is the request graph of spec section 4.2: 0 requires 1 and 2,
  1 requires 2.
\<close>

primrec require_all :: "require_fn \<Rightarrow> nat list \<Rightarrow> unit rt" where
  "require_all req [] = ret ()"
| "require_all req (i # is) = bind_exc (req i) (\<lambda>_. require_all req is)"

definition dep_module :: "nat list \<Rightarrow> string \<Rightarrow> module_fn" where
  "dep_module deps name req m ex = bind_exc (require_all req deps) (\<lambda>_. console_log (JStr name))"

definition diamond :: "module_fn list" where
  "diamond = [dep_module [1, 2] ''0'', dep_module [2] ''1'', dep_module [] ''2'']"

text \<open>The state \<open>bad_module\<close> leaves: its exports hold \<open>a\<close>, the module is cached, not loaded.\<close>

definition bad_state :: rt_state where
  "bad_state = init_state\<lparr>heap := [\<lparr>props = [(''a'', data_prop (JNum (dec_lit 1 0)))], call = None\<rparr>,
                                   module_obj 0 0], installed := [0 \<mapsto> 1]\<rparr>"

text \<open>
  A CommonJS module object, \<open>{x: 1, __esModule: false}\<close>, alone on the heap:
  the input of the other branch of \<open>_interopRequireWildcard\<close>.
\<close>

definition cjs_obj :: obj where
  "cjs_obj = \<lparr>props = [(''x'', data_prop (JNum (dec_lit 1 0))), (''__esModule'', data_prop (JBool False))],
              call = None\<rparr>"

definition cjs_state :: rt_state where
  "cjs_state = init_state\<lparr>heap := [cjs_obj]\<rparr>"

lemma bad_module_ok: "module_ok bad_module"
  unfolding module_ok_def bad_module_def
  by (intro allI impI keeps_rt_grows_bind keeps_put_value keeps_call_value keeps_rt_grows_ret)

lemma keeps_require_all: "(\<And>i. keeps rt_grows (req i)) \<Longrightarrow> keeps rt_grows (require_all req deps)"
  by (induction deps) (simp_all add: keeps_rt_grows_ret keeps_rt_grows_bind)

lemma dep_module_ok: "module_ok (dep_module deps name)"
  unfolding module_ok_def dep_module_def
  by (intro allI impI keeps_rt_grows_bind keeps_require_all keeps_console_log) auto

lemma require_all_ok:
  "req_ok D req \<Longrightarrow> set deps \<subseteq> D \<Longrightarrow> \<exists>s'. require_all req deps s = (Inr (), s') \<and> rt_grows s s'"
proof (induction deps arbitrary: s)
  case Nil
  then show ?case using rt_grows_refl by (simp add: ret_def reflpD)
next
  case (Cons d deps)
  obtain v s1 where r1: "req d s = (Inr v, s1)" using Cons.prems unfolding req_ok_def by fastforce
  have g1: "rt_grows s s1" using Cons.prems r1 unfolding req_ok_def keeps_def by (metis snd_conv)
  obtain s2 where r2: "require_all req deps s1 = (Inr (), s2)" "rt_grows s1 s2" using Cons by auto
  then show ?case using r1 g1 rt_grows_trans by (auto dest: transpD)
qed

lemma dep_module_needs: "module_needs (set deps) (dep_module deps name)"
  unfolding module_needs_def
proof (intro allI impI)
  fix req :: require_fn and m e and s :: rt_state
  assume r: "req_ok (set deps) req" and m: "m < length (heap s)"
  obtain s' where a: "require_all req deps s = (Inr (), s')" "rt_grows s s'" using require_all_ok[OF r] by blast
  then show "\<exists>s''. dep_module deps name req m (JObj e) s = (Inr (), s'') \<and> m < length (heap s'')"
    using m by (auto simp: dep_module_def console_log_def rt_grows_def)
qed

lemma bad_module_run: "require 1 [bad_module] 0 init_state = (Inl TypeError, bad_state)"
  by (simp add: js_eval bad_module_def bad_state_def)

lemma cjs_facts:
  "obj_at 0 cjs_state = Some cjs_obj" "\<not> to_boolean (own_val cjs_obj ''__esModule'')"
  "distinct (map fst (props cjs_obj))" "enum_keys (JObj 0) cjs_state = [''x'', ''__esModule'']"
  by (simp_all add: cjs_state_def cjs_obj_def init_state_def obj_at_def own_val_def get_own_def
      data_prop_def enum_keys_def own_keys_def array_index_def digit_of_def)

end
