(* ===== verification/Handles.thy ===== *)
theory Handles
  imports BundleModules
begin

text \<open>
  The module handle of the specification (spec.md, "ModuleHandle" and
  "no state machine beyond the two states of a ModuleHandle: uninitialized
  \<rightarrow> loaded (monotonic, one-way)") and the proof that the Loader of
  src/bundle.js refines it. The abstract state of an id is \<open>Absent\<close> (no
  cache entry), \<open>Uninit\<close> (cached, \<open>module.l\<close> not true) or \<open>Loaded\<close>;
  \<open>handle_of\<close> reads it from the cache and the module object, and
  \<open>handle_step\<close> is the abstract machine.

  The argument is a frame: \<open>loaded_frame X s s'\<close> says that every object of
  \<open>s\<close> outside \<open>X\<close> keeps its \<open>loaded\<close> value or has it turned true. Each
  operation of the bundle keeps it (writes to other keys, to objects the
  statement allocated itself, and line 23's \<open>module.l = true\<close>), so both
  module functions keep \<open>handles_grow\<close> (the Loader's \<open>rt_grows\<close> and the
  frame) when the require function they are given does, and then so does
  require. \<open>run_requests\<close> runs a sequence of requires, each from the state the
  previous one left, whether it returned or threw.
\<close>

definition loaded_at :: "addr \<Rightarrow> 'x js_state_scheme \<Rightarrow> jsval" where
  "loaded_at a s = (case obj_at a s of None \<Rightarrow> JUndef | Some ob \<Rightarrow> own_val ob ''loaded'')"

definition loaded_frame :: "addr set \<Rightarrow> 'x js_state_scheme \<Rightarrow> 'x js_state_scheme \<Rightarrow> bool" where
  "loaded_frame X s s' \<longleftrightarrow> length (heap s) \<le> length (heap s') \<and>
     (\<forall>a < length (heap s). a \<notin> X \<longrightarrow> loaded_at a s' = loaded_at a s \<or> loaded_at a s' = JBool True)"

definition handles_grow :: "rt_state \<Rightarrow> rt_state \<Rightarrow> bool" where
  "handles_grow s s' \<longleftrightarrow> rt_grows s s' \<and> loaded_frame {} s s'"

definition module_mono :: "module_fn \<Rightarrow> bool" where
  "module_mono f \<longleftrightarrow> (\<forall>req m ex. (\<forall>i. keeps handles_grow (req i)) \<longrightarrow> keeps handles_grow (f req m ex))"

datatype handle = Absent | Uninit | Loaded

definition handle_of :: "rt_state \<Rightarrow> nat \<Rightarrow> handle" where
  "handle_of s mid =
     (case installed s mid of
        None \<Rightarrow> Absent
      | Some m \<Rightarrow> if loaded_at m s = JBool True then Loaded else Uninit)"

text \<open>The abstract machine: a handle is created uninitialised and becomes loaded.\<close>

inductive handle_step :: "handle \<Rightarrow> handle \<Rightarrow> bool" where
  create: "handle_step Absent Uninit"
| init: "handle_step Uninit Loaded"

primrec run_requests :: "module_fn list \<Rightarrow> (nat \<times> nat) list \<Rightarrow> rt_state \<Rightarrow> rt_state" where
  "run_requests mods [] s = s"
| "run_requests mods (r # rs) s = run_requests mods rs (snd (require (fst r) mods (snd r) s))"

inductive_cases handle_step_LoadedE [elim!]: "handle_step Loaded h"

subsection \<open>The abstract machine\<close>

lemma handle_from_absent: "handle_step\<^sup>*\<^sup>* Absent h"
  by (cases h) (auto intro: handle_step.intros rtranclp.rtrancl_into_rtrancl)

lemma handle_to_loaded: "handle_step\<^sup>*\<^sup>* h Loaded"
  by (cases h) (auto intro: handle_step.intros rtranclp.rtrancl_into_rtrancl)

lemma handle_loaded_final: "handle_step\<^sup>*\<^sup>* Loaded h \<Longrightarrow> h = Loaded"
  by (induction rule: rtranclp_induct) auto

subsection \<open>The frame on loaded flags\<close>

lemma loaded_frame_refl: "reflp (loaded_frame X)"
  by (simp add: reflp_def loaded_frame_def)

lemma loaded_frame_trans: "transp (loaded_frame X)"
  unfolding transp_def loaded_frame_def
  by (metis (no_types, lifting) order_less_le_trans order_trans)

lemma keeps_frame_bind [intro]:
  "keeps (loaded_frame X) m \<Longrightarrow> (\<And>x. keeps (loaded_frame X) (f x)) \<Longrightarrow> keeps (loaded_frame X) (bind_exc m f)"
  by (rule keeps_bind[OF loaded_frame_trans loaded_frame_refl])

lemma loaded_frame_same [simp]: "loaded_frame X s s"
  by (simp add: loaded_frame_def)

lemma keeps_frame_ret [intro]: "keeps (loaded_frame X) (ret x)"
  and keeps_frame_throw [intro]: "keeps (loaded_frame X) (throw e)"
  by (simp_all add: keeps_def ret_def throw_def)

lemma loaded_at_append: "a < length (heap s) \<Longrightarrow> loaded_at a (s\<lparr>heap := heap s @ xs\<rparr>) = loaded_at a s"
  by (simp add: loaded_at_def obj_at_def list_get_append_old)

lemma frame_append: "loaded_frame X s (s\<lparr>heap := heap s @ xs\<rparr>)"
  by (simp add: loaded_frame_def loaded_at_append)

lemma own_val_set_other: "k \<noteq> k' \<Longrightarrow> own_val (set_own ob k p) k' = own_val ob k'"
  by (simp add: own_val_def get_own_def set_own_def update_conv')

lemma loaded_at_upd:
  "loaded_at b (upd_obj a ob s) = (if b = a \<and> a < length (heap s) then own_val ob ''loaded'' else loaded_at b s)"
  by (simp add: loaded_at_def upd_obj_def obj_at_def list_get_def)

lemma frame_upd_other:
  assumes "obj_at a s = Some ob" "k \<noteq> ''loaded''"
  shows "loaded_frame X s (upd_obj a (set_own ob k p) s)"
proof -
  have a: "a < length (heap s)" using assms(1) by (simp add: obj_at_def list_get_def split: if_splits)
  have "loaded_at b (upd_obj a (set_own ob k p) s) = loaded_at b s" for b
    using assms a by (simp add: loaded_at_upd own_val_set_other) (simp add: loaded_at_def)
  then show ?thesis by (simp add: loaded_frame_def upd_obj_def)
qed

lemma keeps_frame_get_value [intro]: "keeps (loaded_frame X) (get_value v k)"
  by (simp add: keeps_def get_value_state)

lemma keeps_frame_put_other [intro]: "k \<noteq> ''loaded'' \<Longrightarrow> keeps (loaded_frame X) (put_value v k x)"
  by (auto simp: keeps_def put_value_def ret_def throw_def frame_upd_other split: jsval.splits option.splits)

lemma frame_upd_in: "a \<in> X \<Longrightarrow> loaded_frame X s (upd_obj a ob s)"
  by (simp add: loaded_frame_def loaded_at_upd) (simp add: upd_obj_def)

lemma frame_upd_true:
  assumes "obj_at a s = Some ob" "pval p = JBool True"
  shows "loaded_frame X s (upd_obj a (set_own ob ''loaded'' p) s)"
proof -
  have "own_val (set_own ob ''loaded'' p) ''loaded'' = JBool True"
    using assms(2) by (simp add: own_val_def get_own_def set_own_def update_conv')
  then show ?thesis by (simp add: loaded_frame_def loaded_at_upd) (simp add: upd_obj_def)
qed

lemma frame_mono: "X \<subseteq> Y \<Longrightarrow> keeps (loaded_frame X) m \<Longrightarrow> keeps (loaded_frame Y) m"
  by (auto simp: keeps_def loaded_frame_def)

lemma keeps_frame_put_at [intro]: "keeps (loaded_frame {a}) (put_value (JObj a) k x)"
  by (auto simp: keeps_def put_value_def ret_def throw_def frame_upd_in split: option.splits)

lemma keeps_frame_put_true [intro]: "keeps (loaded_frame X) (put_value_sloppy v ''loaded'' (JBool True))"
  by (auto simp: keeps_def put_value_sloppy_def ret_def throw_def frame_upd_true data_prop_def
      split: jsval.splits option.splits)

lemma keeps_frame_define_other [intro]: "k \<noteq> ''loaded'' \<Longrightarrow> keeps (loaded_frame X) (define_value_prop v k x)"
  by (auto simp: keeps_def define_value_prop_def ret_def throw_def frame_upd_other split: jsval.splits option.splits)

lemma keeps_frame_alloc [intro]: "keeps (loaded_frame X) (alloc ob)"
  by (simp add: keeps_def alloc_def frame_append)

lemma keeps_frame_alloc_fun [intro]: "keeps (loaded_frame X) (alloc_fun f)"
  by (simp add: keeps_def alloc_fun_def Let_def frame_append)

lemma keeps_frame_console_log [intro]: "keeps (loaded_frame X) (console_log v)"
  by (simp add: keeps_def console_log_def loaded_frame_def loaded_at_def obj_at_def)

text \<open>Writes to an object allocated by the statement itself are outside the frame.\<close>

lemma keeps_frame_alloc_bind:
  fixes g :: "addr \<Rightarrow> ('x, 'a) jsm"
  assumes "\<And>n. keeps (loaded_frame {n}) (g n)"
  shows "keeps (loaded_frame X) (bind_exc (alloc ob) g)"
  unfolding keeps_def
proof
  fix s :: "'x js_state_scheme"
  define s1 where "s1 = s\<lparr>heap := heap s @ [ob]\<rparr>"
  have a: "bind_exc (alloc ob) g s = g (length (heap s)) s1" by (simp add: alloc_def s1_def)
  have f2: "loaded_frame {length (heap s)} s1 (snd (g (length (heap s)) s1))"
    using assms by (simp add: keeps_def)
  have "loaded_at b s1 = loaded_at b s" if "b < length (heap s)" for b
    using that by (simp add: s1_def loaded_at_append)
  then show "loaded_frame X s (snd (bind_exc (alloc ob) g s))"
    using f2 unfolding a loaded_frame_def by (simp add: s1_def)
qed

lemma keeps_frame_copy_keys [intro]: "keeps (loaded_frame {n}) (copy_keys src (JObj n) ks)"
proof (induction ks)
  case Nil
  show ?case by (simp only: copy_keys.simps) (rule keeps_frame_ret)
next
  case (Cons k ks)
  then show ?case
    by (simp only: copy_keys.simps) (intro keeps_if keeps_frame_bind keeps_frame_get_value keeps_frame_put_at)
qed

lemma keeps_frame_copy_keys_dep: "keeps (loaded_frame {n}) (\<lambda>s. copy_keys src (JObj n) (K s) s)"
  using keeps_frame_copy_keys unfolding keeps_def by blast

lemma keeps_frame_interop [intro]: "keeps (loaded_frame X) (interop_require_wildcard obj)"
  unfolding interop_require_wildcard_def
  by (intro keeps_frame_alloc_bind keeps_frame_bind keeps_if_const keeps_frame_get_value keeps_frame_ret
      keeps_frame_copy_keys_dep keeps_frame_put_at)

lemma keeps_frame_call_value [intro]: "keeps (loaded_frame X) (call_value f args)"
  using call_value_state[of f args] keeps_frame_interop[of X]
  unfolding keeps_def by (metis loaded_frame_same)

subsection \<open>The interface: both modules, and require\<close>

lemma handles_grow_refl: "reflp handles_grow"
  using rt_grows_refl by (simp add: reflp_def handles_grow_def)

lemma handles_grow_trans: "transp handles_grow"
  using rt_grows_trans loaded_frame_trans unfolding transp_def handles_grow_def by blast

lemma keeps_handles_bind [intro]:
  "keeps handles_grow m \<Longrightarrow> (\<And>x. keeps handles_grow (f x)) \<Longrightarrow> keeps handles_grow (bind_exc m f)"
  by (rule keeps_bind[OF handles_grow_trans handles_grow_refl])

lemma keeps_handlesI:
  "keeps rt_grows m \<Longrightarrow> keeps (loaded_frame {}) m \<Longrightarrow> keeps handles_grow m"
  by (simp add: keeps_def handles_grow_def)

lemma keeps_handlesD:
  "keeps handles_grow m \<Longrightarrow> keeps rt_grows m \<and> keeps (loaded_frame {}) m"
  by (simp add: keeps_def handles_grow_def)

lemma module1_mono: "module_mono module1"
  unfolding module_mono_def
proof (intro allI impI keeps_handlesI)
  fix req :: require_fn and m ex
  show "keeps rt_grows (module1 req m ex)"
    unfolding module1_def by (intro keeps_rt_grows_bind keeps_alloc_fun keeps_define_value_prop keeps_put_value)
  show "keeps (loaded_frame {}) (module1 req m ex)"
    unfolding module1_def by (intro keeps_frame_bind keeps_frame_alloc_fun keeps_frame_define_other
        keeps_frame_put_other) simp_all
qed

lemma module0_mono: "module_mono module0"
  unfolding module_mono_def
proof (intro allI impI keeps_handlesI)
  fix req :: require_fn and m ex
  assume r: "\<forall>i. keeps handles_grow (req i)"
  then have "keeps rt_grows (req i)" "keeps (loaded_frame {}) (req i)" for i
    using keeps_handlesD by blast+
  then show "keeps rt_grows (module0 req m ex)" using module0_ok by (simp add: module_ok_def)
  have "keeps (loaded_frame {}) (\<lambda>s. console_log (F s) s)" for F :: "rt_state \<Rightarrow> jsval"
    by (simp add: keeps_def console_log_def loaded_frame_def loaded_at_def obj_at_def)
  then show "keeps (loaded_frame {}) (module0 req m ex)"
    unfolding module0_def using \<open>\<And>i. keeps (loaded_frame {}) (req i)\<close>
    by (intro keeps_frame_bind keeps_frame_alloc_fun keeps_frame_interop keeps_frame_console_log
        keeps_frame_get_value keeps_frame_call_value) auto
qed

lemma bundle_modules_mono: "list_all module_mono bundle_modules"
  by (simp add: bundle_modules_def module0_mono module1_mono)

lemma handles_miss: "installed s mid = None \<Longrightarrow> handles_grow s (miss_state mid s)"
  using rt_grows_miss[of s mid]
  by (simp add: handles_grow_def loaded_frame_def loaded_at_def obj_at_def miss_state_def list_get_append_old)

lemma require_handles:
  assumes "list_all module_mono mods"
  shows "keeps handles_grow (require n mods mid)"
proof (induction n arbitrary: mid)
  case 0
  show ?case using handles_grow_refl by (simp add: keeps_throw)
next
  case (Suc n)
  have g: "keeps handles_grow (get_value v k)" for v k
    using handles_grow_refl by (simp add: keeps_def get_value_state reflpD)
  have p: "keeps handles_grow (put_value_sloppy v ''loaded'' (JBool True))" for v
    by (intro keeps_handlesI keeps_put_value_sloppy keeps_frame_put_true)
  show ?case unfolding keeps_def
  proof
    fix s
    show "handles_grow s (snd (require (Suc n) mods mid s))"
    proof (cases "installed s mid")
      case (Some m)
      then show ?thesis using g by (simp add: keeps_def)
    next
      case None
      have rest: "handles_grow (miss_state mid s) (snd (require (Suc n) mods mid s))"
      proof (cases "list_get mods mid")
        case None': None
        then show ?thesis using handles_grow_refl by (simp add: require_miss[OF None] reflpD del: require.simps)
      next
        case (Some f)
        then have "module_mono f" using assms by (auto simp: list_all_iff list_get_Some_iff)
        then have "keeps handles_grow (f (require n mods) m ex)" for m ex
          using Suc.IH by (simp add: module_mono_def)
        then have "keeps handles_grow (bind_exc (f (require n mods) m ex) (\<lambda>_.
          bind_exc (put_value_sloppy (JObj m) ''loaded'' (JBool True)) (\<lambda>_. get_value (JObj m) ''exports'')))"
          for m ex using g p by blast
        then show ?thesis using Some by (simp add: require_miss[OF None] keeps_def del: require.simps)
      qed
      with handles_miss[OF None] show ?thesis using handles_grow_trans by (blast dest: transpD)
    qed
  qed
qed

subsection \<open>The refinement\<close>

lemma handles_grow_step:
  assumes g: "handles_grow s s'" and c: "cache_ok s"
  shows "handle_step\<^sup>*\<^sup>* (handle_of s i) (handle_of s' i)"
proof (cases "installed s i")
  case None
  then show ?thesis by (simp add: handle_of_def handle_from_absent)
next
  case (Some m)
  have i': "installed s' i = Some m" using g Some by (auto simp: handles_grow_def rt_grows_def map_le_def dom_def)
  have "m < length (heap s)" using c Some by (simp add: cache_ok_def)
  then have "loaded_at m s' = loaded_at m s \<or> loaded_at m s' = JBool True"
    using g by (simp add: handles_grow_def loaded_frame_def)
  then show ?thesis
  proof
    assume "loaded_at m s' = loaded_at m s"
    then show ?thesis using Some i' by (simp add: handle_of_def)
  next
    assume "loaded_at m s' = JBool True"
    then show ?thesis using i' by (simp add: handle_of_def handle_to_loaded)
  qed
qed

lemma requests_handles:
  assumes "list_all module_mono mods" "cache_ok s"
  shows "handle_step\<^sup>*\<^sup>* (handle_of s i) (handle_of (run_requests mods rs s) i) \<and> cache_ok (run_requests mods rs s)"
  using assms(2)
proof (induction rs arbitrary: s)
  case Nil
  then show ?case by simp
next
  case (Cons r rs)
  define s' where "s' = snd (require (fst r) mods (snd r) s)"
  have g: "handles_grow s s'" using require_handles[OF assms(1)] by (simp add: keeps_def s'_def)
  then have c: "cache_ok s'" using Cons.prems rt_grows_cache_ok unfolding handles_grow_def by blast
  have "handle_step\<^sup>*\<^sup>* (handle_of s i) (handle_of s' i)" using handles_grow_step[OF g Cons.prems] .
  then show ?case using Cons.IH[OF c] by (simp add: s'_def) (metis rtranclp_trans)
qed

text \<open>C10: the Loader refines the specification's one-way handle machine: when every module function keeps the loaded frame and the cache names heap objects, a require (completing or throwing) moves the handle of every id along handle_step (absent to uninitialised to loaded), never backwards.\<close>

theorem require_handle_step:
  assumes "list_all module_mono mods" "cache_ok s"
  shows "handle_step\<^sup>*\<^sup>* (handle_of s i) (handle_of (snd (require n mods mid s)) i)"
  using handles_grow_step[OF _ assms(2)] require_handles[OF assms(1)] by (simp add: keeps_def)

lemma bootstrap_handles:
  "cache_ok (snd (bootstrap 2 bundle_modules)) \<and> handle_of (snd (bootstrap 2 bundle_modules)) 0 = Loaded \<and>
   handle_of (snd (bootstrap 2 bundle_modules)) 1 = Loaded"
  unfolding numeral_2_eq_2
  by (simp add: js_eval small_lits pi_lit_bits cache_ok_def handle_of_def loaded_at_def own_val_def)

text \<open>C11: after the bootstrap of the bundle, modules 0 and 1 are loaded, and they stay loaded after any later sequence of requires of any ids at any depths, completing or throwing.\<close>

theorem bundle_loaded_forever:
  "handle_of (run_requests bundle_modules rs (snd (bootstrap 2 bundle_modules))) 0 = Loaded \<and>
   handle_of (run_requests bundle_modules rs (snd (bootstrap 2 bundle_modules))) 1 = Loaded"
  using requests_handles[OF bundle_modules_mono, of "snd (bootstrap 2 bundle_modules)"] bootstrap_handles
    handle_loaded_final by metis

end
