(* ===== verification/Spec2Isabelle.thy ===== *)
theory Spec2Isabelle
  imports Scenarios Handles
begin

text \<open>
  \<^bold>\<open>A verification of src/bundle.js (saikats5/es6-1).\<close>

  \<^bold>\<open>The program.\<close> src/bundle.js is a webpack bundle of two ES2015 modules
  compiled to ES5. Its parts and how they interact:
  \<^item> the bootstrap (lines 1--41): the module cache \<open>installedModules\<close> and the
    require function \<open>__webpack_require__\<close>, which returns a cached module's
    \<open>exports\<close> or creates the module object \<open>{exports: {}, id, loaded: false}\<close>,
    caches it, runs the module function from the registry, sets \<open>loaded\<close>
    and returns \<open>module.exports\<close>; the bootstrap ends with \<open>require(0)\<close>;
  \<^item> the registry (lines 43--85): the array of module functions, each called
    with \<open>(module, exports, __webpack_require__)\<close>;
  \<^item> module 1 (lines 67--84): marks its exports \<open>__esModule\<close> with
    \<open>Object.defineProperty\<close>, exports \<open>circumference\<close>, \<open>area\<close> and
    \<open>PI = 3.141592653589793\<close>;
  \<^item> module 0 (lines 45--65): requires module 1, wraps it with
    \<open>_interopRequireWildcard\<close>, and logs \<open>"One: 1, Two: 2, Three: 3"\<close> and
    \<open>area(PI)\<close> twice, once through the direct import and once through the
    namespace object.

  \<^bold>\<open>The theories.\<close>
  \<^item> \<open>Prelude\<close>: array reads with \<open>undefined\<close> out of range (\<open>list_get\<close>), the
    statement type \<open>('e, 's, 'a) stmt\<close> of code that may throw, with
    \<open>bind_exc\<close> for sequencing, and \<open>keeps\<close>, a relation every step of a
    statement keeps; the evaluation collections \<open>float_eval\<close>, \<open>js_eval\<close>.
  \<^item> \<open>Float64\<close>: JavaScript numbers as 64-bit IEEE-754 patterns (\<open>64 word\<close>):
    fields, classes, exact values (\<open>f_val\<close>), executable round-to-nearest-even
    of a rational (\<open>round_div\<close>, \<open>round_val\<close>), the multiplication \<open>fmul\<close> of
    the \<open>*\<close> operator, decimal literals (\<open>dec_lit\<close>), and the addition
    \<open>fadd\<close> of \<open>+\<close> on two numbers, which completes the operator but which
    the bundle never reaches (each of its \<open>+\<close> has a string operand). Its
    lemmas: the encoding, the floor of the binary logarithm, exactness and
    scale invariance of the rounding, multiplication by a power of two.
  \<^item> \<open>Rounding\<close>: the specification \<open>nearest_float\<close> (a finite number no finite
    number is closer to) and the overflow threshold \<open>f_threshold\<close>
    (\<open>2^1024 - 2^970\<close>, as in IEEE 754): \<open>round_div\<close> meets the specification
    whenever its result is finite, its result is finite below the
    threshold, so the \<open>*\<close> operator and decimal literals round correctly
    below it; quotients and products of magnitude at least \<open>2^1024\<close> round
    to an infinity.
  \<^item> \<open>JsObject\<close>: values (\<open>jsval\<close>), objects with data properties and their
    attributes (\<open>property\<close>, \<open>obj\<close>), the heap and the console (\<open>js_state\<close>),
    property read \<open>get_value\<close>, assignment in strict code \<open>put_value\<close> (the
    module functions) and in non-strict code \<open>put_value_sloppy\<close> (line 23),
    \<open>define_value_prop\<close> for \<open>Object.defineProperty(o, k, {value: v})\<close>,
    \<open>has_own\<close>, the key order of for-in (\<open>enum_keys\<close>), \<open>console_log\<close>,
    and the frame lemmas of updates.
  \<^item> \<open>JsConvert\<close>: ToBoolean, ToNumber, Number::toString (the shortest
    round-tripping digits, searched from one to seventeen digits),
    ToPrimitive, the \<open>+\<close> operator, \<open>v != null\<close>. ToNumber of a string
    (\<open>str_to_number\<close> and its parser) is the semantics of the exported
    \<open>area\<close> and \<open>circumference\<close> on a string argument; the bundle itself
    calls them only on numbers, so it is not mapped to a line of the bundle.
  \<^item> \<open>Loader\<close>: the runtime state \<open>rt_state\<close> (the JavaScript state and the
    cache \<open>installed\<close>, ids to module objects), \<open>require\<close>
    (\<open>__webpack_require__\<close>), \<open>bootstrap\<close> (line 40). Module functions are
    statements over \<open>rt_state\<close> given the require function; the interface
    \<open>module_ok\<close> says a module function keeps \<open>rt_grows\<close> (no cache entry
    evicted or rebound, no heap shrinking, new entries naming heap objects)
    when the require function it is given does. Its theorems: a cache hit
    returns \<open>module.exports\<close> without consulting the registry or changing the
    state (C6); every call keeps every cache entry and the heap (C5); a
    successful load leaves the module cached with \<open>loaded = true\<close> unless the
    module made it read-only (C4), and any later require returns the same
    value without running anything (C1); an unregistered id throws TypeError
    but stays cached with empty exports (C2); a module that throws stays
    cached with its partial exports (C7). Progress: at every depth of at
    least one, a require of a cached id returns normally, and so does one of
    an id whose module function is \<open>module_live\<close> (completes on a fresh
    exports object), as module 1 is (C8); along an acyclic request graph
    whose module functions complete when their dependencies' requires do
    (\<open>module_needs\<close>), a require completes at every depth greater than the
    requested id's rank, from every state (C9).
  \<^item> \<open>BundleModules\<close>: function objects (\<open>alloc_fun\<close>), \<open>circumference\<close>, \<open>area\<close>
    and \<open>module1\<close>; \<open>interop_require_wildcard\<close> with its loop \<open>copy_keys\<close>,
    \<open>call_value\<close>, \<open>line59\<close> and \<open>module0\<close>; the registry \<open>bundle_modules\<close>.
    Its theorems: both modules keep the interface; the entry completes and
    prints its three lines from any state in which modules 0 and 1 are not
    cached (C3); \<open>circumference\<close> overflows for large finite arguments (C12)
    and otherwise rounds once, \<open>2 * PI\<close> being exact (C13); \<open>area\<close> rounds
    twice, left to right (C14); both branches of the interop, the CommonJS
    one against the reference \<open>namespace_obj\<close> (C17, C18); the exports
    module 1 builds (C19).
  \<^item> \<open>Handles\<close>: the module handle of the spec as an abstract machine
    (\<open>handle\<close>: absent, uninitialised, loaded; \<open>handle_step\<close>), the
    abstraction \<open>handle_of\<close> of a cache entry and its \<open>loaded\<close> flag, and the
    frame \<open>loaded_frame\<close> on \<open>loaded\<close> flags with a lemma per operation.
    Its theorems: for registries whose module functions keep the frame
    (\<open>module_mono\<close>, true of both modules), every require moves every
    handle forward along \<open>handle_step\<close> (C10), and after the bundle's
    bootstrap both modules stay loaded through any sequence of requires
    (\<open>run_requests\<close>, C11).
  \<^item> \<open>Scenarios\<close>: concrete inputs for the Loader's theorems on paths the
    bundle's modules never take: a module that throws half-way, a diamond of
    requests, a CommonJS module object.
  \<^item> this theory: the witnesses that apply the theorems with hypotheses at
    concrete inputs.

  \<^bold>\<open>Bounds and fuel.\<close> \<open>require n\<close> may call itself through module functions
  at most \<open>n\<close> deep; the last frame throws RangeError, as an engine's stack
  overflow does, so no result is assumed. The progress theorems (C8, C9)
  say which depths suffice: one for a cached or live module, the rank plus
  one along an acyclic graph; the bundle's entry completes at every depth of
  at least 2 (C3), module 0 requiring module 1. Number::toString tries
  seventeen lengths, enough for every binary64 value. The rounding theorems
  assume the exact result is below the overflow threshold; at and above
  \<open>2^1024\<close> the result is an infinity (C12).

  \<^bold>\<open>Not modelled.\<close> The objects of the bootstrap itself (the registry array,
  the module functions' own function objects, \<open>installedModules\<close> as an object,
  \<open>__webpack_require__\<close> as an object and its properties \<open>m\<close>, \<open>c\<close>, \<open>p\<close>
  of lines 30--37, which nothing reads): the cache is the map \<open>installed\<close>,
  and modelling those three assignments would need the require function and
  the registry as heap objects that no code of the bundle ever reads, and
  the require function object would have to call back into the model of
  \<open>__webpack_require__\<close> itself. Since the cache is a map,
  \<open>if(installedModules[moduleId])\<close> (line 9) is modelled as presence of the
  id; the two agree because every value the bootstrap stores there is a
  module object, which is truthy, and the key is the decimal string of the
  id.
  Prototype chains: no property the bundle reads is inherited. The text
  console.log prints for a value (the host formats it). Strings are 8-bit, not
  UTF-16. Accessor properties and descriptors other than \<open>{value: v}\<close>.

  \<^bold>\<open>Findings.\<close> The spec says an unregistered id "performs no mutation to the
  Cache"; the code caches the id before it looks the module up, so the call
  throws with the id cached and a second call returns an empty exports object
  (C2). The bundle logs \<open>area(PI)\<close> as the binary64 value
  \<open>0x403F019B59389D7B\<close> (C3), two roundings of the product (C14), not the
  exact cube of PI the spec calls it; the spec's approximation
  \<open>31.00627668029982\<close> reads as the next binary64 value up
  (\<open>spec_area_literal\<close>). \<open>circumference(r)\<close> is an infinity for large
  finite \<open>r\<close>, where the spec says it is \<open>2 * pi * r\<close> for every finite
  \<open>r\<close> (C12). A module whose initialiser throws stays cached and unloaded,
  and later requires return its partial exports (C7); the spec's error
  section does not say so. The bootstrap is non-strict code (only the module
  functions say \<open>"use strict"\<close>), so \<open>module.loaded = true\<close> of line 23 is
  silently ignored when a module has made \<open>loaded\<close> read-only; the Loader's
  theorem on \<open>loaded\<close> (C4) has that case as its second disjunct, where the
  spec says the Loader sets it.

  \<^bold>\<open>Further work.\<close> That Number::toString reads back through ToNumber to
  every finite value; error bounds of \<open>area\<close> against the exact
  \<open>PI * r * r\<close>; progress for registries with cycles.
\<close>

subsection \<open>The Loader's theorems on the bundle\<close>

lemma load_math:
  "require (Suc 0) bundle_modules 1 init_state =
     (Inr (JObj 0), snd (require (Suc 0) bundle_modules 1 init_state))"
  by (simp add: js_eval)

lemma load_math_state:
  "installed (snd (require (Suc 0) bundle_modules 1 init_state)) 1 = Some 1"
  "get_value (JObj 0) ''__esModule'' (snd (require (Suc 0) bundle_modules 1 init_state)) =
     (Inr (JBool True), snd (require (Suc 0) bundle_modules 1 init_state))"
  "loaded_writable 1 (snd (require (Suc 0) bundle_modules 1 init_state))"
  by (simp_all add: js_eval loaded_writable_def)

lemma init_state_heap: "heap init_state = []" "installed init_state = Map.empty"
  by (simp_all add: init_state_def)

theorem require_memoised_witness:
  "require (Suc 0) bundle_modules 1 init_state =
     (Inr (JObj 0), snd (require (Suc 0) bundle_modules 1 init_state)) \<and>
   require (Suc 0) [] 1 (snd (require (Suc 0) bundle_modules 1 init_state)) =
     (Inr (JObj 0), snd (require (Suc 0) bundle_modules 1 init_state))"
  using load_math Loader.require_memoised[OF bundle_modules_ok load_math, of 0 "[]"]
  by (simp del: require.simps)

theorem require_unknown_witness:
  "installed init_state 5 = None \<and> length bundle_modules \<le> 5 \<and>
   require (Suc 0) bundle_modules 5 init_state = (Inl TypeError, miss_state 5 init_state) \<and>
   require (Suc 0) [] 5 (miss_state 5 init_state) = (Inr (JObj 0), miss_state 5 init_state)"
proof -
  have h: "installed init_state 5 = None" "length bundle_modules \<le> 5"
    by (simp_all add: init_state_heap bundle_modules_def)
  show ?thesis using h Loader.require_unknown[OF h, of 0 0 "[]"]
    by (simp add: init_state_heap del: require.simps)
qed

theorem require_hit_witness:
  "installed (snd (require (Suc 0) bundle_modules 1 init_state)) 1 = Some 1 \<and>
   require (Suc 0) bundle_modules 1 (snd (require (Suc 0) bundle_modules 1 init_state)) =
     require (Suc 3) [] 1 (snd (require (Suc 0) bundle_modules 1 init_state)) \<and>
   snd (require (Suc 0) bundle_modules 1 (snd (require (Suc 0) bundle_modules 1 init_state))) =
     snd (require (Suc 0) bundle_modules 1 init_state)"
  using load_math_state(1) Loader.require_hit_ignores_registry[OF load_math_state(1), of 0 bundle_modules 3 "[]"]
  by blast

theorem require_never_evicts_witness:
  "list_all module_ok bundle_modules \<and>
   installed (snd (require (Suc 0) bundle_modules 1 init_state)) 1 = Some 1 \<and>
   installed (snd (require 2 bundle_modules 0 (snd (require (Suc 0) bundle_modules 1 init_state)))) 1 = Some 1"
  using bundle_modules_ok load_math_state(1)
    Loader.require_never_evicts[OF bundle_modules_ok load_math_state(1), of 2 0]
  by (simp del: require.simps)

theorem require_sets_loaded_witness:
  "installed init_state 1 = None \<and>
   installed (snd (require (Suc 0) bundle_modules 1 init_state)) 1 = Some 1 \<and>
   get_value (JObj 1) ''loaded'' (snd (require (Suc 0) bundle_modules 1 init_state)) =
     (Inr (JBool True), snd (require (Suc 0) bundle_modules 1 init_state))"
proof -
  have h: "installed init_state 1 = None" by (simp add: init_state_heap)
  show ?thesis
    using h Loader.require_sets_loaded[OF bundle_modules_ok h load_math] load_math_state(3)
    by (simp add: init_state_heap del: require.simps)
qed

theorem interop_es_module_witness:
  "to_boolean (JObj 0) \<and>
   interop_require_wildcard (JObj 0) (snd (require (Suc 0) bundle_modules 1 init_state)) =
     (Inr (JObj 0), snd (require (Suc 0) bundle_modules 1 init_state))"
  using BundleModules.interop_es_module[OF _ load_math_state(2)]
  by (simp del: require.simps)

theorem module1_exports_witness:
  "obj_at 0 (init_state\<lparr>heap := [empty_obj]\<rparr>) = Some empty_obj \<and>
   module1 (require 0 []) 1 (JObj 0) (init_state\<lparr>heap := [empty_obj]\<rparr>) =
     (Inr (), init_state\<lparr>heap := [
        \<lparr>props = [(''__esModule'', \<lparr>pval = JBool True, writable = False, enumerable = False, configurable = False\<rparr>),
                   (''circumference'', data_prop (JObj 1)), (''area'', data_prop (JObj 3)),
                   (''PI'', data_prop (JNum pi_lit))], call = None\<rparr>,
        fun_obj FCircumference 2, proto_obj 1, fun_obj FArea 4, proto_obj 3]\<rparr>)"
proof -
  have h: "obj_at 0 (init_state\<lparr>heap := [empty_obj]\<rparr>) = Some empty_obj"
    by (simp add: obj_at_def)
  show ?thesis using h BundleModules.module1_exports[OF h, of "require 0 []" 1]
    by (simp add: numeral_eq_Suc)
qed

theorem interop_commonjs_witness:
  "obj_at 0 cjs_state = Some cjs_obj \<and> \<not> to_boolean (own_val cjs_obj ''__esModule'') \<and>
   distinct (map fst (props cjs_obj)) \<and>
   interop_require_wildcard (JObj 0) cjs_state =
     (Inr (JObj 1), cjs_state\<lparr>heap := [cjs_obj, namespace_obj cjs_obj [''x'', ''__esModule''] (JObj 0)]\<rparr>)"
  using cjs_facts BundleModules.interop_commonjs[OF cjs_facts(1-3)]
  by (simp add: cjs_state_def init_state_def)

theorem require_throw_leaves_entry_witness:
  "list_all module_ok [bad_module] \<and> installed init_state 0 = None \<and>
   require (Suc 0) [bad_module] 0 init_state = (Inl TypeError, bad_state) \<and>
   installed bad_state 0 = Some 1 \<and>
   require (Suc 0) [] 0 bad_state = get_value (JObj 1) ''exports'' bad_state"
proof -
  have h: "list_all module_ok [bad_module]" "installed init_state 0 = None"
    "require (Suc 0) [bad_module] 0 init_state = (Inl TypeError, bad_state)"
    using bad_module_ok bad_module_run by (simp_all add: init_state_heap)
  show ?thesis using h Loader.require_throw_leaves_entry[OF h, of 0 "[]"]
    by (simp add: init_state_heap del: require.simps)
qed

theorem require_progress_witness:
  "\<exists>v s'. require (Suc 0) bundle_modules 1 init_state = (Inr v, s')"
proof -
  have h: "installed init_state 1 \<noteq> None \<or> (list_get bundle_modules 1 = Some module1 \<and> module_live module1)"
    by (simp add: bundle_modules_def module1_live)
  show ?thesis using Loader.require_progress[OF h, of 0] .
qed

theorem circumference_overflow_witness:
  "is_finite (0x7FEFFFFFFFFFFFFF :: float64) \<and> 2045 \<le> f_exp (0x7FEFFFFFFFFFFFFF :: float64) \<and>
   circumference (JNum 0x7FEFFFFFFFFFFFFF) = f_make False 2047 0"
proof -
  have h: "is_finite (0x7FEFFFFFFFFFFFFF :: float64)" "2045 \<le> f_exp (0x7FEFFFFFFFFFFFFF :: float64)"
    "\<not> f_sign (0x7FEFFFFFFFFFFFFF :: float64)" by (simp_all add: float_eval)
  show ?thesis using h BundleModules.circumference_overflow[OF h(1,2)] by simp
qed

theorem require_handle_step_witness:
  "handle_step\<^sup>*\<^sup>* (handle_of init_state 1) (handle_of (snd (require 2 bundle_modules 0 init_state)) 1)"
proof -
  have c: "cache_ok init_state" by (simp add: cache_ok_def init_state_def)
  show ?thesis using Handles.require_handle_step[OF bundle_modules_mono c, of 1 2 0] .
qed

theorem entry_from_any_state_witness:
  "fst (require (Suc (Suc 0)) bundle_modules 0 (miss_state 7 init_state)) = Inr (JObj 2) \<and>
   console (snd (require (Suc (Suc 0)) bundle_modules 0 (miss_state 7 init_state))) =
     [JStr ''One: 1, Two: 2, Three: 3'', JNum 0x403F019B59389D7B, JNum 0x403F019B59389D7B]"
proof -
  have h: "installed (miss_state 7 init_state) 0 = None" "installed (miss_state 7 init_state) 1 = None"
    by (simp_all add: miss_state_def init_state_def)
  have l: "length (heap (miss_state 7 init_state)) = 2" "console (miss_state 7 init_state) = []"
    by (simp_all add: miss_state_def init_state_def)
  show ?thesis using BundleModules.entry_from_any_state[OF h, of 0] unfolding l by simp
qed

theorem require_graph_progress_witness:
  "\<exists>v s'. require 3 diamond 0 init_state = (Inr v, s')"
proof -
  have ok: "list_all module_ok diamond" by (simp add: diamond_def dep_module_ok)
  have needs: "\<forall>i<length diamond. module_needs (set ([[1, 2], [2], []] ! i)) (diamond ! i)"
  proof (intro allI impI)
    fix i assume "i < length diamond"
    then have "i = 0 \<or> i = 1 \<or> i = 2" by (auto simp: diamond_def)
    then show "module_needs (set ([[1, 2], [2], []] ! i)) (diamond ! i)"
      using dep_module_needs[of "[1, 2]" "''0''"] dep_module_needs[of "[2]" "''1''"] dep_module_needs[of "[]" "''2''"]
      by (auto simp: diamond_def)
  qed
  have ranked: "\<forall>i<length diamond. \<forall>j\<in>set ([[1, 2], [2], []] ! i). j < length diamond \<and> 2 - j < 2 - (i::nat)"
    by (auto simp: diamond_def less_Suc_eq numeral_eq_Suc)
  show ?thesis
    using Loader.require_graph_progress[OF ok needs ranked, of 0 3 init_state] by (simp add: diamond_def)
qed

subsection \<open>Witnesses of the rounding theorems\<close>

lemma pi_val: "f_val pi_lit = 884279719003555 / 2 ^ 48"
  by (simp add: pi_lit_bits f_val_def float_eval power_int_minus)

lemma pi_sq_val: "f_val (fmul pi_lit pi_lit) = 2778046668940015 / 2 ^ 48"
proof -
  have "fmul pi_lit pi_lit = 0x4023BD3CC9BE45DE" by (simp add: pi_lit_bits float_eval)
  then show ?thesis by (simp add: f_val_def float_eval power_int_minus)
qed



theorem circumference_nearest_witness:
  "nearest_float (2 * f_val pi_lit * f_val pi_lit) (circumference (JNum pi_lit))"
proof -
  have t: "\<bar>2 * f_val pi_lit * f_val pi_lit\<bar> < f_threshold" by (simp add: pi_val f_threshold_def)
  show ?thesis using BundleModules.circumference_nearest[OF pi_fields(1) t] .
qed

theorem area_two_roundings_witness:
  "nearest_float (f_val pi_lit * f_val pi_lit) (fmul pi_lit pi_lit) \<and>
   nearest_float (f_val (fmul pi_lit pi_lit) * f_val pi_lit) (area (JNum pi_lit))"
proof -
  have t: "\<bar>f_val pi_lit * f_val pi_lit\<bar> < f_threshold"
    "\<bar>f_val (fmul pi_lit pi_lit) * f_val pi_lit\<bar> < f_threshold"
    by (simp_all add: pi_val pi_sq_val f_threshold_def)
  show ?thesis using BundleModules.area_two_roundings[OF pi_fields(1) t] .
qed

end
